theory Spec2Isabelle
  imports Main "HOL-Library.Sublist" "HOL-Library.AList"
begin

section \<open>Values, exceptions and the world the module acts on\<close>

text \<open>
  The module \<^verbatim>\<open>scar/providers/aws/lambdalayers.py\<close> manages the supervisor layer of a
  Lambda function. It works on Python dictionaries, on the local file system and on three
  collaborators that live outside the file: the Lambda client, the HTTP helper and the helpers of
  \<^verbatim>\<open>scar.utils\<close>.

  File contents are either opaque bytes or a zip archive, given by its entries in the order of
  \<^verbatim>\<open>namelist()\<close>. An entry whose name ends in a slash is a directory entry.
\<close>

datatype blob = Bytes string | Zip "(string \<times> blob) list"

text \<open>Python values: \<^verbatim>\<open>None\<close>, integers, strings, bytes and dictionaries with string keys
  (in insertion order). The characters of a string are its code points, all below 256.\<close>

datatype pyval = PNone | PInt int | PStr string | PBytes blob | PDict "(string \<times> pyval) list"

type_synonym pydict = "(string \<times> pyval) list"

text \<open>The exceptions the module can meet. \<open>Other\<close> names an exception class raised by a
  collaborator.\<close>

datatype exn =
    KeyError string
  | ValueError
  | TypeError
  | AttributeError
  | UnboundLocalError string
  | FileNotFoundError string
  | ShutilError string
  | BadZipFile
  | Other string

text \<open>Calls received by the Lambda client, with their keyword arguments.\<close>

datatype call =
    ListLayers
  | PublishLayerVersion pydict
  | DeleteLayerVersion pydict

text \<open>
  The world: the state of the platform behind the client, the files on disk (path and content;
  a directory exists when a file lies below it), the calls the client has received and the lines
  sent to the logger.
\<close>

record 'p world =
  platform :: 'p
  files :: "(string \<times> blob) list"
  calls :: "call list"
  logged :: "string list"

text \<open>
  The collaborators, none of which is defined in the module: the three operations of
  \<^verbatim>\<open>LambdaClient\<close>, \<^verbatim>\<open>GitHubUtils.get_source_code_url\<close>, \<^verbatim>\<open>request.get_file\<close>,
  \<^verbatim>\<open>StrUtils.compare_versions\<close>, the two constants naming the GitHub project, the directory
  returned by \<^verbatim>\<open>FileUtils.get_tmp_dir\<close> and the names of the two directories returned by the
  calls of \<^verbatim>\<open>FileUtils.create_tmp_dir\<close>.
\<close>

record 'p env =
  list_layers :: "'p \<Rightarrow> exn + pydict list"
  publish_layer_version :: "pydict \<Rightarrow> 'p \<Rightarrow> (exn + pyval) \<times> 'p"
  delete_layer_version :: "pydict \<Rightarrow> 'p \<Rightarrow> (exn + pyval) \<times> 'p"
  get_source_code_url :: "string \<Rightarrow> string \<Rightarrow> string \<Rightarrow> exn + string"
  get_file :: "string \<Rightarrow> exn + blob"
  compare_versions :: "pyval \<Rightarrow> pyval \<Rightarrow> exn + int"
  GITHUB_USER :: string
  GITHUB_SUPERVISOR_PROJECT :: string
  get_tmp_dir :: string
  tmp_zip_folder :: string
  layer_code_folder :: string

text \<open>A statement either returns a value or raises, and leaves a world behind in both cases.\<close>

type_synonym ('a, 'p) action = "'p world \<Rightarrow> (exn + 'a) \<times> 'p world"

definition bind :: "('a, 'p) action \<Rightarrow> ('a \<Rightarrow> ('b, 'p) action) \<Rightarrow> ('b, 'p) action" where
  "bind m f w = (case m w of (Inl e, w') \<Rightarrow> (Inl e, w') | (Inr a, w') \<Rightarrow> f a w')"

definition return :: "'a \<Rightarrow> ('a, 'p) action" where
  "return a w = (Inr a, w)"

definition raise :: "exn \<Rightarrow> ('a, 'p) action" where
  "raise e w = (Inl e, w)"

definition lift :: "exn + 'a \<Rightarrow> ('a, 'p) action" where
  "lift r w = (r, w)"

definition logger_info :: "string \<Rightarrow> (unit, 'p) action" where
  "logger_info msg w = (Inr (), w\<lparr>logged := logged w @ [msg]\<rparr>)"

subsection \<open>Python built-ins used by the module\<close>

text \<open>Truth value of an object in a condition.\<close>

fun truthy :: "pyval \<Rightarrow> bool" where
  "truthy PNone = False"
| "truthy (PInt i) = (i \<noteq> 0)"
| "truthy (PStr s) = (s \<noteq> [])"
| "truthy (PBytes (Bytes s)) = (s \<noteq> [])"
| "truthy (PBytes (Zip es)) = True"
| "truthy (PDict d) = (d \<noteq> [])"

text \<open>\<^verbatim>\<open>d.get(k, default)\<close> on a dictionary.\<close>

definition dict_get :: "pydict \<Rightarrow> string \<Rightarrow> pyval \<Rightarrow> pyval" where
  "dict_get d k dflt = (case map_of d k of Some v \<Rightarrow> v | None \<Rightarrow> dflt)"

text \<open>\<^verbatim>\<open>v.get(k, default)\<close> on any value: only dictionaries have the method.\<close>

fun py_get :: "pyval \<Rightarrow> string \<Rightarrow> pyval \<Rightarrow> exn + pyval" where
  "py_get (PDict d) k dflt = Inr (dict_get d k dflt)"
| "py_get v k dflt = Inl AttributeError"

text \<open>\<^verbatim>\<open>k in v\<close> for a string \<open>k\<close>: key membership in a dictionary, substring test in a
  string, a \<^verbatim>\<open>TypeError\<close> elsewhere.\<close>

fun py_in :: "string \<Rightarrow> pyval \<Rightarrow> exn + bool" where
  "py_in k (PDict d) = Inr (map_of d k \<noteq> None)"
| "py_in k (PStr s) = Inr (sublist k s)"
| "py_in k v = Inl TypeError"

text \<open>\<^verbatim>\<open>d[k]\<close> on a dictionary.\<close>

definition dict_item :: "pydict \<Rightarrow> string \<Rightarrow> exn + pyval" where
  "dict_item d k = (case map_of d k of Some v \<Rightarrow> Inr v | None \<Rightarrow> Inl (KeyError k))"

text \<open>
  \<^verbatim>\<open>int(v)\<close>. An integer is returned as it is. A string or bytes object is stripped of
  surrounding white space and must then be an optional sign followed by decimal digits, where
  single underscores may separate digits; more than 4300 digits are refused (the default limit
  of the interpreter). White space in bytes is the characters 9 to 13 and 32; in a string the
  code points 133 and 160 count as well. \<^verbatim>\<open>None\<close> and dictionaries are rejected with a
  \<^verbatim>\<open>TypeError\<close>, a malformed literal with a \<^verbatim>\<open>ValueError\<close>.
\<close>

definition is_space :: "char \<Rightarrow> bool" where
  "is_space c = (let n = (of_char c :: nat) in (9 \<le> n \<and> n \<le> 13) \<or> n = 32)"

definition is_unicode_space :: "char \<Rightarrow> bool" where
  "is_unicode_space c = (let n = (of_char c :: nat) in is_space c \<or> n = 133 \<or> n = 160)"

definition is_digit :: "char \<Rightarrow> bool" where
  "is_digit c = (let n = (of_char c :: nat) in 48 \<le> n \<and> n \<le> 57)"

definition digit_value :: "char \<Rightarrow> int" where
  "digit_value c = int (of_char c) - 48"

definition strip :: "(char \<Rightarrow> bool) \<Rightarrow> string \<Rightarrow> string" where
  "strip space s = rev (dropWhile space (rev (dropWhile space s)))"

fun more_digits :: "string \<Rightarrow> int \<Rightarrow> int option" where
  "more_digits [] acc = Some acc"
| "more_digits [c] acc = (if is_digit c then Some (10 * acc + digit_value c) else None)"
| "more_digits (c # d # ds) acc =
     (if is_digit c then more_digits (d # ds) (10 * acc + digit_value c)
      else if c = CHR ''_'' \<and> is_digit d then more_digits ds (10 * acc + digit_value d)
      else None)"

definition decimal_literal :: "string \<Rightarrow> int option" where
  "decimal_literal s =
     (if 4300 < length (filter is_digit s) then None
      else (case s of [] \<Rightarrow> None
            | c # cs \<Rightarrow> if is_digit c then more_digits cs (digit_value c) else None))"

definition int_of_string :: "(char \<Rightarrow> bool) \<Rightarrow> string \<Rightarrow> exn + int" where
  "int_of_string space s =
     (let t = strip space s;
          r = (case t of
                 [] \<Rightarrow> None
               | c # cs \<Rightarrow>
                   if c = CHR ''-'' then map_option uminus (decimal_literal cs)
                   else if c = CHR ''+'' then decimal_literal cs
                   else decimal_literal t)
      in case r of None \<Rightarrow> Inl ValueError | Some i \<Rightarrow> Inr i)"

fun py_int :: "pyval \<Rightarrow> exn + int" where
  "py_int (PInt i) = Inr i"
| "py_int (PStr s) = int_of_string is_unicode_space s"
| "py_int (PBytes (Bytes s)) = int_of_string is_space s"
| "py_int (PBytes (Zip es)) = Inl ValueError"
| "py_int PNone = Inl TypeError"
| "py_int (PDict d) = Inl TypeError"

section \<open>Class \<open>Layer\<close>\<close>

text \<open>The calls of the client are recorded in the world as they are made.\<close>

definition client_list_layers :: "'p env \<Rightarrow> (pydict list, 'p) action" where
  "client_list_layers env w =
     (list_layers env (platform w), w\<lparr>calls := calls w @ [ListLayers]\<rparr>)"

definition client_publish_layer_version :: "'p env \<Rightarrow> pydict \<Rightarrow> (pyval, 'p) action" where
  "client_publish_layer_version env kwargs w =
     (case publish_layer_version env kwargs (platform w) of
        (r, p') \<Rightarrow> (r, w\<lparr>platform := p', calls := calls w @ [PublishLayerVersion kwargs]\<rparr>))"

definition client_delete_layer_version :: "'p env \<Rightarrow> pydict \<Rightarrow> (pyval, 'p) action" where
  "client_delete_layer_version env kwargs w =
     (case delete_layer_version env kwargs (platform w) of
        (r, p') \<Rightarrow> (r, w\<lparr>platform := p', calls := calls w @ [DeleteLayerVersion kwargs]\<rparr>))"

text \<open>The loop of \<^verbatim>\<open>Layer._find\<close>: the first listed layer whose \<^verbatim>\<open>LayerName\<close>, read with
  the default \<^verbatim>\<open>''\<close>, equals the name; the empty dictionary when the loop ends.\<close>

fun find_loop :: "pydict list \<Rightarrow> pyval \<Rightarrow> pydict" where
  "find_loop [] layer_name = []"
| "find_loop (layer # rest) layer_name =
     (if dict_get layer ''LayerName'' (PStr '''') = layer_name then layer
      else find_loop rest layer_name)"

definition Layer_find :: "'p env \<Rightarrow> pyval \<Rightarrow> (pydict, 'p) action" where
  "Layer_find env layer_name =
     bind (client_list_layers env) (\<lambda>layers. return (find_loop layers layer_name))"

definition Layer_create :: "'p env \<Rightarrow> pydict \<Rightarrow> (pyval, 'p) action" where
  "Layer_create env kwargs = client_publish_layer_version env kwargs"

definition Layer_exists :: "'p env \<Rightarrow> pyval \<Rightarrow> (bool, 'p) action" where
  "Layer_exists env layer_name =
     bind (Layer_find env layer_name) (\<lambda>layer.
       if truthy (PDict layer) then return True else return False)"

definition Layer_get_latest_layer_info :: "'p env \<Rightarrow> pyval \<Rightarrow> (pyval, 'p) action" where
  "Layer_get_latest_layer_info env layer_name =
     bind (Layer_find env layer_name) (\<lambda>layer.
       if truthy (PDict layer) then lift (dict_item layer ''LatestMatchingVersion'')
       else return (PDict []))"

definition Layer_delete :: "'p env \<Rightarrow> pydict \<Rightarrow> (pyval, 'p) action" where
  "Layer_delete env kwargs =
     bind (lift (dict_item kwargs ''name'')) (\<lambda>name.
       let layer_args = [(''LayerName'', name)] in
       if map_of kwargs ''version'' \<noteq> None then
         bind (lift (dict_item kwargs ''version'')) (\<lambda>version.
         bind (lift (py_int version)) (\<lambda>n.
           client_delete_layer_version env (AList.update ''VersionNumber'' (PInt n) layer_args)))
       else
         bind (Layer_get_latest_layer_info env name) (\<lambda>version_info.
         bind (lift (py_get version_info ''Version'' (PInt (- 1)))) (\<lambda>v.
           client_delete_layer_version env (AList.update ''VersionNumber'' v layer_args))))"

section \<open>File system and archives\<close>

text \<open>
  Modelled from the spec: \<^verbatim>\<open>FileUtils.join_paths\<close> is missing from the sources; it joins
  path components with the separator, as \<^verbatim>\<open>os.path.join\<close> does for relative components.
\<close>

fun join_paths :: "string list \<Rightarrow> string" where
  "join_paths [] = []"
| "join_paths [p] = p"
| "join_paths (p # q # ps) = p @ ''/'' @ join_paths (q # ps)"

text \<open>A path lies below a directory when it continues the directory's path after a separator.\<close>

definition below :: "string \<Rightarrow> string \<Rightarrow> bool" where
  "below d p = prefix (d @ ''/'') p"

definition isdir :: "(string \<times> blob) list \<Rightarrow> string \<Rightarrow> bool" where
  "isdir fs d = list_ex (\<lambda>(p, b). below d p) fs"

definition path_exists :: "(string \<times> blob) list \<Rightarrow> string \<Rightarrow> bool" where
  "path_exists fs p = (map_of fs p \<noteq> None \<or> isdir fs p)"

definition basename :: "string \<Rightarrow> string" where
  "basename p = rev (takeWhile (\<lambda>c. c \<noteq> CHR ''/'') (rev p))"

text \<open>\<^verbatim>\<open>zipfile.ZipFile(io.BytesIO(data))\<close>: bytes that are no archive are refused.\<close>

fun ZipFile :: "blob \<Rightarrow> exn + (string \<times> blob) list" where
  "ZipFile (Zip entries) = Inr entries"
| "ZipFile (Bytes s) = Inl BadZipFile"

definition is_dir_entry :: "string \<Rightarrow> bool" where
  "is_dir_entry member = (member \<noteq> [] \<and> last member = CHR ''/'')"

text \<open>\<^verbatim>\<open>thezip.extract(member, path)\<close>: the member (the last entry of that name) is written
  to \<^verbatim>\<open>path/member\<close>, replacing a file that is there; a directory entry creates a directory
  only. Member names are taken as they are: relative, without \<^verbatim>\<open>..\<close> components.\<close>

definition zip_extract :: "(string \<times> blob) list \<Rightarrow> string \<Rightarrow> string \<Rightarrow> (unit, 'p) action" where
  "zip_extract thezip member path w =
     (case map_of (rev thezip) member of
        None \<Rightarrow> (Inl (KeyError member), w)
      | Some b \<Rightarrow>
          if is_dir_entry member then (Inr (), w)
          else (Inr (), w\<lparr>files := AList.update (join_paths [path, member]) b (files w)\<rparr>))"

text \<open>\<^verbatim>\<open>thezip.extractall(path)\<close>.\<close>

fun zip_extractall :: "(string \<times> blob) list \<Rightarrow> string list \<Rightarrow> string \<Rightarrow> (unit, 'p) action" where
  "zip_extractall thezip [] path = return ()"
| "zip_extractall thezip (member # rest) path =
     bind (zip_extract thezip member path) (\<lambda>_. zip_extractall thezip rest path)"

text \<open>
  \<^verbatim>\<open>shutil.move(src, dst)\<close>: a source moved onto an existing directory goes inside it, and
  must not exist there yet; a directory is moved with everything below it; a missing source is
  an error.
\<close>

definition shutil_move :: "string \<Rightarrow> string \<Rightarrow> (unit, 'p) action" where
  "shutil_move src dst w =
     (let fs = files w;
          real_dst = (if isdir fs dst then join_paths [dst, basename src] else dst)
      in if isdir fs dst \<and> path_exists fs real_dst then
           (Inl (ShutilError real_dst), w)
         else if isdir fs src then
           (if map_of fs real_dst \<noteq> None then (Inl (Other ''FileExistsError''), w)
            else (Inr (), w\<lparr>files :=
                    map (\<lambda>(p, b). if below src p then (real_dst @ drop (length src) p, b)
                                   else (p, b)) fs\<rparr>))
         else (case map_of fs src of
                 None \<Rightarrow> (Inl (FileNotFoundError src), w)
               | Some b \<Rightarrow> (Inr (), w\<lparr>files := AList.update real_dst b (AList.delete src fs)\<rparr>)))"

text \<open>
  Modelled from the spec: \<^verbatim>\<open>FileUtils.get_all_files_in_directory\<close> is missing from the
  sources; it returns the paths of the files found below the directory (``every file found under
  the extracted \<^verbatim>\<open>extra/\<close> subtree'').
\<close>

definition get_all_files_in_directory :: "string \<Rightarrow> (string list, 'p) action" where
  "get_all_files_in_directory dir_path w =
     (Inr (map fst (filter (\<lambda>(p, b). below dir_path p) (files w))), w)"

text \<open>
  Modelled from the spec: \<^verbatim>\<open>FileUtils.unzip_folder\<close> is missing from the sources; it expands
  an archive into a directory (``expands it directly into the root of \<^verbatim>\<open>code_dir\<close>''). A file
  that is no archive cannot be expanded.
\<close>

definition unzip_folder :: "string \<Rightarrow> string \<Rightarrow> (unit, 'p) action" where
  "unzip_folder zip_path folder_where_unzip_path w =
     (case map_of (files w) zip_path of
        None \<Rightarrow> (Inl (FileNotFoundError zip_path), w)
      | Some content \<Rightarrow>
          (case ZipFile content of
             Inl e \<Rightarrow> (Inl e, w)
           | Inr thezip \<Rightarrow> zip_extractall thezip (map fst thezip) folder_where_unzip_path w))"

text \<open>
  Modelled from the spec: \<^verbatim>\<open>FileUtils.zip_folder\<close> is missing from the sources; it writes one
  archive of the files below the folder, named by their paths relative to it (``produces one
  archive from the complete \<^verbatim>\<open>code_dir\<close> tree, preserving relative paths'').
\<close>

definition zip_folder :: "string \<Rightarrow> string \<Rightarrow> (unit, 'p) action" where
  "zip_folder zip_path folder_path w =
     (let entries = map (\<lambda>(p, b). (drop (length folder_path + 1) p, b))
                        (filter (\<lambda>(p, b). below folder_path p) (files w))
      in (Inr (), w\<lparr>files := AList.update zip_path (Zip entries) (files w)\<rparr>))"

text \<open>
  Modelled from the spec: \<^verbatim>\<open>FileUtils.read_file\<close> and \<^verbatim>\<open>FileUtils.delete_file\<close> are missing
  from the sources; the first returns the content of a file, the second removes a file
  (``delete the temporary output archive'').
\<close>

definition read_file :: "string \<Rightarrow> (blob, 'p) action" where
  "read_file path w =
     (case map_of (files w) path of
        None \<Rightarrow> (Inl (FileNotFoundError path), w)
      | Some content \<Rightarrow> (Inr content, w))"

definition delete_file :: "string \<Rightarrow> (unit, 'p) action" where
  "delete_file path w = (Inr (), w\<lparr>files := AList.delete path (files w)\<rparr>)"

section \<open>Fetching and packaging\<close>

text \<open>\<^verbatim>\<open>_create_tmp_folders\<close>: the names of two temporary directories.\<close>

definition create_tmp_folders :: "'p env \<Rightarrow> string \<times> string" where
  "create_tmp_folders env = (tmp_zip_folder env, layer_code_folder env)"

text \<open>\<^verbatim>\<open>file.split("/", 1)\<close>.\<close>

definition split_once :: "string \<Rightarrow> string list" where
  "split_once s =
     (if CHR ''/'' \<in> set s
      then [takeWhile (\<lambda>c. c \<noteq> CHR ''/'') s, tl (dropWhile (\<lambda>c. c \<noteq> CHR ''/'') s)]
      else [s])"

text \<open>
  The loop of \<^verbatim>\<open>_download_supervisor\<close> over \<^verbatim>\<open>thezip.namelist()\<close>. The last argument is
  the variable \<^verbatim>\<open>parent_folder\<close>, unbound before the first iteration. Unpacking the split
  into two names raises \<^verbatim>\<open>ValueError\<close> when the entry has no separator.
\<close>

fun extract_loop ::
  "(string \<times> blob) list \<Rightarrow> string \<Rightarrow> string list \<Rightarrow> string option \<Rightarrow> (string option, 'p) action"
where
  "extract_loop thezip tmp_zip_path [] parent_folder = return parent_folder"
| "extract_loop thezip tmp_zip_path (file # rest) parent_folder =
     (case split_once file of
        [parent, file_name] \<Rightarrow>
          bind (if prefix ''extra'' file_name \<or> prefix ''faassupervisor'' file_name
                then zip_extract thezip file tmp_zip_path else return ())
               (\<lambda>_. extract_loop thezip tmp_zip_path rest (Some parent))
      | _ \<Rightarrow> raise ValueError)"

definition download_supervisor :: "'p env \<Rightarrow> string \<Rightarrow> string \<Rightarrow> (string, 'p) action" where
  "download_supervisor env supervisor_version tmp_zip_path =
     bind (lift (get_source_code_url env (GITHUB_USER env) (GITHUB_SUPERVISOR_PROJECT env)
                   supervisor_version)) (\<lambda>supervisor_zip_url.
     bind (lift (get_file env supervisor_zip_url)) (\<lambda>supervisor_zip.
     bind (lift (ZipFile supervisor_zip)) (\<lambda>thezip.
     bind (extract_loop thezip tmp_zip_path (map fst thezip) None) (\<lambda>parent_folder.
       case parent_folder of
         None \<Rightarrow> raise (UnboundLocalError ''parent_folder'')
       | Some p \<Rightarrow> return p))))"

definition copy_supervisor_files :: "string \<Rightarrow> string \<Rightarrow> string \<Rightarrow> (unit, 'p) action" where
  "copy_supervisor_files parent_folder tmp_zip_path layer_code_path =
     (let supervisor_path = join_paths [tmp_zip_path, parent_folder, ''faassupervisor'']
      in shutil_move supervisor_path (join_paths [layer_code_path, ''python'', ''faassupervisor'']))"

fun unzip_each :: "string list \<Rightarrow> string \<Rightarrow> (unit, 'p) action" where
  "unzip_each [] layer_code_path = return ()"
| "unzip_each (file_path # rest) layer_code_path =
     bind (unzip_folder file_path layer_code_path) (\<lambda>_. unzip_each rest layer_code_path)"

definition copy_extra_files :: "string \<Rightarrow> string \<Rightarrow> string \<Rightarrow> (unit, 'p) action" where
  "copy_extra_files parent_folder tmp_zip_path layer_code_path =
     (let extra_folder_path = join_paths [tmp_zip_path, parent_folder, ''extra'']
      in bind (get_all_files_in_directory extra_folder_path) (\<lambda>files.
           unzip_each files layer_code_path))"

definition create_layer_zip :: "string \<Rightarrow> string \<Rightarrow> (unit, 'p) action" where
  "create_layer_zip layer_zip_path layer_code_path = zip_folder layer_zip_path layer_code_path"

section \<open>Class \<open>LambdaLayers\<close>\<close>

text \<open>The object after construction: the layer name, the supervisor version and the licence
  information read from the resources.\<close>

record lambda_layers =
  layer_name :: string
  supervisor_version :: string
  license_info :: pyval

definition quoted :: "string \<Rightarrow> string" where
  "quoted s = [CHR 0x27] @ s @ [CHR 0x27]"

definition get_supervisor_layer_props :: "lambda_layers \<Rightarrow> string \<Rightarrow> (pydict, 'p) action" where
  "get_supervisor_layer_props self layer_zip_path =
     bind (read_file layer_zip_path) (\<lambda>content.
       return [(''LayerName'', PStr (layer_name self)),
               (''Description'', PStr (supervisor_version self)),
               (''Content'', PDict [(''ZipFile'', PBytes content)]),
               (''LicenseInfo'', license_info self)])"

definition create_layer :: "'p env \<Rightarrow> lambda_layers \<Rightarrow> (unit, 'p) action" where
  "create_layer env self =
     (case create_tmp_folders env of (tmp_zip_path, layer_code_path) \<Rightarrow>
      let layer_zip_path = join_paths [get_tmp_dir env, layer_name self @ ''.zip''] in
      bind (download_supervisor env (supervisor_version self) tmp_zip_path) (\<lambda>parent_folder.
      bind (copy_supervisor_files parent_folder tmp_zip_path layer_code_path) (\<lambda>_.
      bind (copy_extra_files parent_folder tmp_zip_path layer_code_path) (\<lambda>_.
      bind (create_layer_zip layer_zip_path layer_code_path) (\<lambda>_.
      bind (get_supervisor_layer_props self layer_zip_path) (\<lambda>props.
      bind (Layer_create env props) (\<lambda>_.
        delete_file layer_zip_path)))))))"

definition create_supervisor_layer :: "'p env \<Rightarrow> lambda_layers \<Rightarrow> (unit, 'p) action" where
  "create_supervisor_layer env self =
     bind (logger_info (''Creating '' @ quoted (layer_name self) @ '' layer.'')) (\<lambda>_.
     bind (create_layer env self) (\<lambda>_.
       logger_info (quoted (layer_name self) @ '' layer created.'')))"

definition update_supervisor_layer :: "'p env \<Rightarrow> lambda_layers \<Rightarrow> (unit, 'p) action" where
  "update_supervisor_layer env self =
     bind (logger_info (''Updating '' @ quoted (layer_name self) @ '' layer.'')) (\<lambda>_.
     bind (create_layer env self) (\<lambda>_.
       logger_info (quoted (layer_name self) @ '' layer updated.'')))"

definition get_latest_supervisor_layer_arn :: "'p env \<Rightarrow> lambda_layers \<Rightarrow> (pyval, 'p) action" where
  "get_latest_supervisor_layer_arn env self =
     bind (Layer_get_latest_layer_info env (PStr (layer_name self))) (\<lambda>layer_info.
       lift (py_get layer_info ''LayerVersionArn'' (PStr '''')))"

definition check_faas_supervisor_layer :: "'p env \<Rightarrow> lambda_layers \<Rightarrow> (unit, 'p) action" where
  "check_faas_supervisor_layer env self =
     bind (Layer_get_latest_layer_info env (PStr (layer_name self))) (\<lambda>layer_info.
     bind (if truthy layer_info then lift (py_in ''Description'' layer_info) else return False)
       (\<lambda>has_description.
         if has_description then
           bind (lift (py_get layer_info ''Description'' (PStr ''''))) (\<lambda>description.
           bind (lift (compare_versions env description (PStr (supervisor_version self))))
             (\<lambda>c. if c < 0 then update_supervisor_layer env self
                  else logger_info (''Using existent '' @ quoted (layer_name self) @ '' layer'')))
         else create_supervisor_layer env self))"

section \<open>Observations and a reference environment\<close>

text \<open>The keyword arguments of the publish calls among the recorded calls, in order.\<close>

fun publishes :: "call list \<Rightarrow> pydict list" where
  "publishes [] = []"
| "publishes (PublishLayerVersion kwargs # cs) = kwargs # publishes cs"
| "publishes (c # cs) = publishes cs"

text \<open>The path of the output archive of \<^verbatim>\<open>_create_layer\<close>.\<close>

definition layer_zip_path :: "'p env \<Rightarrow> lambda_layers \<Rightarrow> string" where
  "layer_zip_path env self = join_paths [get_tmp_dir env, layer_name self @ ''.zip'']"

text \<open>The statements of \<^verbatim>\<open>_create_layer\<close> that come before the publish call: fetching,
  assembling, packaging and reading the archive into the arguments of the call.\<close>

definition packaging :: "'p env \<Rightarrow> lambda_layers \<Rightarrow> (pydict, 'p) action" where
  "packaging env self =
     (case create_tmp_folders env of (tmp_zip_path, layer_code_path) \<Rightarrow>
      bind (download_supervisor env (supervisor_version self) tmp_zip_path) (\<lambda>parent_folder.
      bind (copy_supervisor_files parent_folder tmp_zip_path layer_code_path) (\<lambda>_.
      bind (copy_extra_files parent_folder tmp_zip_path layer_code_path) (\<lambda>_.
      bind (create_layer_zip (layer_zip_path env self) layer_code_path) (\<lambda>_.
        get_supervisor_layer_props self (layer_zip_path env self))))))"

text \<open>An action that touches nothing but the files.\<close>

definition files_only :: "('a, 'p) action \<Rightarrow> bool" where
  "files_only m =
     (\<forall>w. platform (snd (m w)) = platform w \<and> calls (snd (m w)) = calls w
          \<and> logged (snd (m w)) = logged w)"

text \<open>
  Modelled from the spec: the platform registry API is an external collaborator. In this
  reference platform the state is the list of layer records that \<^verbatim>\<open>list_layers\<close> returns;
  publishing ``always creates a new version, never mutates an existing one'': the new record
  is listed first and earlier ones stay; deleting removes the records of the name whose latest
  version has the given number.
\<close>

definition platform_publish :: "pydict \<Rightarrow> pydict list \<Rightarrow> (exn + pyval) \<times> pydict list" where
  "platform_publish kwargs layers =
     (let name = dict_get kwargs ''LayerName'' PNone;
          latest = dict_get (find_loop layers name) ''LatestMatchingVersion'' (PDict []);
          n = (case py_get latest ''Version'' (PInt 0) of Inr (PInt i) \<Rightarrow> i + 1 | _ \<Rightarrow> 1);
          info = PDict [(''Version'', PInt n),
                        (''Description'', dict_get kwargs ''Description'' (PStr '''')),
                        (''LayerVersionArn'',
                           PStr (''arn:aws:lambda:layer:'' @ (case name of PStr s \<Rightarrow> s | _ \<Rightarrow> [])))]
      in (Inr info, [(''LayerName'', name), (''LatestMatchingVersion'', info)] # layers))"

definition platform_delete :: "pydict \<Rightarrow> pydict list \<Rightarrow> (exn + pyval) \<times> pydict list" where
  "platform_delete kwargs layers =
     (Inr PNone,
      filter (\<lambda>l. \<not> (map_of l ''LayerName'' = map_of kwargs ''LayerName''
                     \<and> py_get (dict_get l ''LatestMatchingVersion'' (PDict [])) ''Version'' PNone
                         = Inr (dict_get kwargs ''VersionNumber'' (PInt (- 1)))))
             layers)"

text \<open>
  Modelled from the spec: \<^verbatim>\<open>StrUtils.compare_versions\<close> is missing from the sources;
  versions are ``semantic-version-like'' and compare ``lower/equal/greater''. Here a version
  is a sequence of decimal numbers separated by dots, missing components count as zero, and the
  result is negative, zero or positive.
\<close>

fun split_on :: "char \<Rightarrow> string \<Rightarrow> string list" where
  "split_on sep [] = [[]]"
| "split_on sep (c # cs) =
     (if c = sep then [] # split_on sep cs
      else (case split_on sep cs of x # xs \<Rightarrow> (c # x) # xs | [] \<Rightarrow> [[c]]))"

definition version_number :: "string \<Rightarrow> nat option" where
  "version_number s =
     (if s \<noteq> [] \<and> list_all is_digit s
      then Some (foldl (\<lambda>n c. 10 * n + nat (digit_value c)) 0 s) else None)"

fun version_numbers :: "string list \<Rightarrow> nat list option" where
  "version_numbers [] = Some []"
| "version_numbers (s # ss) =
     (case (version_number s, version_numbers ss) of
        (Some n, Some ns) \<Rightarrow> Some (n # ns) | _ \<Rightarrow> None)"

fun compare_numbers :: "nat list \<Rightarrow> nat list \<Rightarrow> int" where
  "compare_numbers [] [] = 0"
| "compare_numbers (x # xs) [] = (if 0 < x then 1 else compare_numbers xs [])"
| "compare_numbers [] (y # ys) = (if 0 < y then - 1 else compare_numbers [] ys)"
| "compare_numbers (x # xs) (y # ys) =
     (if x < y then - 1 else if y < x then 1 else compare_numbers xs ys)"

fun dotted_compare_versions :: "pyval \<Rightarrow> pyval \<Rightarrow> exn + int" where
  "dotted_compare_versions (PStr ver1) (PStr ver2) =
     (case (version_numbers (split_on CHR ''.'' ver1), version_numbers (split_on CHR ''.'' ver2)) of
        (Some ns1, Some ns2) \<Rightarrow> Inr (compare_numbers ns1 ns2)
      | _ \<Rightarrow> Inl ValueError)"
| "dotted_compare_versions v1 v2 = Inl TypeError"

text \<open>The reference environment serves one release archive at every URL and uses the
  directories \<^verbatim>\<open>/tmp/zip\<close> and \<^verbatim>\<open>/tmp/code\<close> below the temporary directory \<^verbatim>\<open>/tmp\<close>.\<close>

definition reference_env :: "blob \<Rightarrow> pydict list env" where
  "reference_env release =
     \<lparr>list_layers = Inr,
      publish_layer_version = platform_publish,
      delete_layer_version = platform_delete,
      get_source_code_url = (\<lambda>user project tag.
         Inr (''https://github.com/'' @ user @ ''/'' @ project @ ''/archive/'' @ tag @ ''.zip'')),
      get_file = (\<lambda>url. Inr release),
      compare_versions = dotted_compare_versions,
      GITHUB_USER = ''grycap'',
      GITHUB_SUPERVISOR_PROJECT = ''faas-supervisor'',
      get_tmp_dir = ''/tmp'',
      tmp_zip_folder = ''/tmp/zip'',
      layer_code_folder = ''/tmp/code''\<rparr>"

text \<open>A world with the given layer records and files, before any call.\<close>

definition initial_world :: "'p \<Rightarrow> (string \<times> blob) list \<Rightarrow> 'p world" where
  "initial_world p fs = \<lparr>platform = p, files = fs, calls = [], logged = []\<rparr>"

text \<open>Sample inputs: the supervisor layer at version 1.5.0, a release archive with one source
  file and one bundled archive, environments whose publish call or download fails, and
  registries holding an older and the current version.\<close>

definition supervisor_layers :: lambda_layers where
  "supervisor_layers =
     \<lparr>layer_name = ''supervisor'', supervisor_version = ''1.5.0'',
      license_info = PStr ''Apache 2.0''\<rparr>"

definition sample_release :: blob where
  "sample_release =
     Zip [(''faas-supervisor-1.5.0/faassupervisor/a.py'', Bytes ''import sys''),
          (''faas-supervisor-1.5.0/extra/bundle.zip'', Zip [(''b.txt'', Bytes ''binary'')])]"

definition failing_publish_env :: "blob \<Rightarrow> pydict list env" where
  "failing_publish_env release =
     (reference_env release)\<lparr>publish_layer_version := (\<lambda>kwargs p. (Inl (Other ''ClientError''), p))\<rparr>"

definition failing_get_file_env :: "pydict list env" where
  "failing_get_file_env =
     (reference_env (Bytes []))\<lparr>get_file := (\<lambda>url. Inl (Other ''HTTPError''))\<rparr>"

definition stale_registry :: "pydict list" where
  "stale_registry =
     [[(''LayerName'', PStr ''supervisor''),
       (''LatestMatchingVersion'',
          PDict [(''Version'', PInt 1), (''Description'', PStr ''1.4.0''),
                 (''LayerVersionArn'', PStr ''arn:aws:lambda:layer:supervisor'')])]]"

definition current_registry :: "pydict list" where
  "current_registry =
     [[(''LayerName'', PStr ''supervisor''),
       (''LatestMatchingVersion'',
          PDict [(''Version'', PInt 2), (''Description'', PStr ''1.5.0''),
                 (''LayerVersionArn'', PStr ''arn:aws:lambda:layer:supervisor'')])]]"

text \<open>A release archive with entries beside the two folders whose names start like them.\<close>

definition release_with_sibling :: blob where
  "release_with_sibling =
     Zip [(''faas-supervisor-1.5.0/extras/notes.txt'', Bytes ''notes''),
          (''faas-supervisor-1.5.0/faassupervisor.md'', Bytes ''docs''),
          (''faas-supervisor-1.5.0/faassupervisor/a.py'', Bytes ''import sys'')]"

section \<open>Basic facts\<close>

lemmas monad_defs = bind_def return_def raise_def lift_def

lemma bind_assoc: "bind (bind m f) g = bind m (\<lambda>a. bind (f a) g)"
  by (rule ext) (simp add: bind_def split: prod.splits sum.splits)

lemma find_loop_named:
  "n \<noteq> PStr '''' \<or> (\<forall>l\<in>set layers. map_of l ''LayerName'' \<noteq> None) \<Longrightarrow>
   find_loop layers n \<noteq> [] \<longleftrightarrow> (\<exists>l\<in>set layers. map_of l ''LayerName'' = Some n)"
  by (induction layers) (auto simp: dict_get_def split: option.splits)

lemma find_loop_absent:
  "(\<forall>l\<in>set layers. dict_get l ''LayerName'' (PStr '''') \<noteq> n) \<Longrightarrow> find_loop layers n = []"
  by (induction layers) auto

lemma Layer_find_listed:
  "list_layers env (platform w) = Inr layers \<Longrightarrow>
   Layer_find env n w = (Inr (find_loop layers n), w\<lparr>calls := calls w @ [ListLayers]\<rparr>)"
  by (simp add: Layer_find_def client_list_layers_def monad_defs)

section \<open>The registry wrapper\<close>

subsection \<open>Existence of a layer\<close>

text \<open>
  C7, as amended. For arbitrary registry contents and every layer name, \<^verbatim>\<open>exists(name)\<close>
  returns true if and only if \<^verbatim>\<open>_find(name)\<close> returns a non-empty record, and false if and
  only if it returns the empty one. The scan reads \<^verbatim>\<open>LayerName\<close> with the default \<^verbatim>\<open>''\<close>,
  so the second half of the claim needs a proviso: when the name is not the empty string, or
  every listed record carries a \<^verbatim>\<open>LayerName\<close> field, \<^verbatim>\<open>exists\<close> returns false exactly when
  no listed record has that exact name.
\<close>

theorem Layer_exists_iff_find:
  "(fst (Layer_exists env n w) = Inr True \<longleftrightarrow>
      (\<exists>layer. fst (Layer_find env n w) = Inr layer \<and> layer \<noteq> []))
   \<and> (fst (Layer_exists env n w) = Inr False \<longleftrightarrow> fst (Layer_find env n w) = Inr [])
   \<and> (list_layers env (platform w) = Inr layers
        \<and> (n \<noteq> PStr '''' \<or> (\<forall>l\<in>set layers. map_of l ''LayerName'' \<noteq> None))
      \<longrightarrow> (fst (Layer_exists env n w) = Inr False
             \<longleftrightarrow> (\<forall>l\<in>set layers. map_of l ''LayerName'' \<noteq> Some n)))"
proof (intro conjI impI)
  show "fst (Layer_exists env n w) = Inr True \<longleftrightarrow>
      (\<exists>layer. fst (Layer_find env n w) = Inr layer \<and> layer \<noteq> [])"
    by (auto simp: Layer_exists_def monad_defs split: sum.splits prod.splits)
  show "fst (Layer_exists env n w) = Inr False \<longleftrightarrow> fst (Layer_find env n w) = Inr []"
    by (auto simp: Layer_exists_def monad_defs split: sum.splits prod.splits)
next
  assume h: "list_layers env (platform w) = Inr layers
        \<and> (n \<noteq> PStr '''' \<or> (\<forall>l\<in>set layers. map_of l ''LayerName'' \<noteq> None))"
  then have "find_loop layers n \<noteq> [] \<longleftrightarrow> (\<exists>l\<in>set layers. map_of l ''LayerName'' = Some n)"
    using find_loop_named[of n layers] by blast
  moreover have "fst (Layer_exists env n w) = Inr (find_loop layers n \<noteq> [])"
    using h by (simp add: Layer_exists_def Layer_find_listed bind_def return_def)
  ultimately show "fst (Layer_exists env n w) = Inr False
             \<longleftrightarrow> (\<forall>l\<in>set layers. map_of l ''LayerName'' \<noteq> Some n)"
    by auto
qed

text \<open>With one record named \<^verbatim>\<open>other\<close> listed, \<^verbatim>\<open>exists\<close> is false for \<^verbatim>\<open>supervisor\<close> and true
  for \<^verbatim>\<open>other\<close>.\<close>

theorem Layer_exists_iff_find_witness:
  "fst (Layer_exists (reference_env (Bytes [])) (PStr ''supervisor'')
         (initial_world [[(''LayerName'', PStr ''other'')]] [])) = Inr False
   \<and> fst (Layer_exists (reference_env (Bytes [])) (PStr ''other'')
         (initial_world [[(''LayerName'', PStr ''other'')]] [])) = Inr True"
proof -
  let ?env = "reference_env (Bytes [])"
  let ?ls = "[[(''LayerName'', PStr ''other'')]]"
  let ?w = "initial_world ?ls []"
  have l: "list_layers ?env (platform ?w) = Inr ?ls"
    by (simp add: reference_env_def initial_world_def)
  have a: "fst (Layer_exists ?env (PStr ''supervisor'') ?w) = Inr False"
    using Layer_exists_iff_find[of ?env "PStr ''supervisor''" ?w ?ls] l by simp
  have "fst (Layer_find ?env (PStr ''other'') ?w) = Inr [(''LayerName'', PStr ''other'')]"
    by (simp add: Layer_find_listed[OF l] dict_get_def)
  then have b: "fst (Layer_exists ?env (PStr ''other'') ?w) = Inr True"
    using Layer_exists_iff_find[of ?env "PStr ''other''" ?w ?ls] by simp
  show ?thesis using a b by simp
qed

text \<open>
  The claim as first stated fails for the empty name. A listed record without a
  \<^verbatim>\<open>LayerName\<close> field is found under the name \<^verbatim>\<open>''\<close>, so \<^verbatim>\<open>exists('')\<close> is true although
  no listed record has that name; and the empty record is found under \<^verbatim>\<open>''\<close> and returned
  as it is, so \<^verbatim>\<open>exists('')\<close> is false although the scan matched a listed record.
\<close>

theorem Layer_exists_counterexample:
  "fst (Layer_exists (reference_env (Bytes [])) (PStr '''')
         (initial_world [[(''LayerArn'', PStr ''arn:aws:lambda:layer:x'')]] [])) = Inr True
   \<and> map_of [(''LayerArn'', PStr ''arn:aws:lambda:layer:x'')] ''LayerName'' \<noteq> Some (PStr '''')
   \<and> fst (Layer_exists (reference_env (Bytes [])) (PStr '''') (initial_world [[]] [])) = Inr False
   \<and> dict_get [] ''LayerName'' (PStr '''') = PStr ''''"
  by (simp add: Layer_exists_def Layer_find_def client_list_layers_def monad_defs
        reference_env_def initial_world_def dict_get_def)

lemma latest_info_listed:
  "list_layers env (platform w) = Inr layers \<Longrightarrow>
   Layer_get_latest_layer_info env n w =
     ((if find_loop layers n = [] then Inr (PDict [])
       else dict_item (find_loop layers n) ''LatestMatchingVersion''),
      w\<lparr>calls := calls w @ [ListLayers]\<rparr>)"
  by (simp add: Layer_get_latest_layer_info_def Layer_find_listed monad_defs)

lemma calls_client_delete:
  "calls (snd (client_delete_layer_version env kwargs w)) = calls w @ [DeleteLayerVersion kwargs]"
  by (simp add: client_delete_layer_version_def split: prod.splits)

subsection \<open>The latest ARN\<close>

text \<open>
  C9. For every registry state, \<^verbatim>\<open>get_latest_supervisor_layer_arn\<close> returns the empty string
  when the scan finds no record for the layer name, and otherwise, the record found being
  non-empty and embedding a latest matching version with a \<^verbatim>\<open>LayerVersionArn\<close> field, it
  returns exactly that field.
\<close>

theorem latest_supervisor_layer_arn:
  "list_layers env (platform w) = Inr layers \<longrightarrow>
     ((\<forall>l\<in>set layers. dict_get l ''LayerName'' (PStr '''') \<noteq> PStr (layer_name self))
        \<longrightarrow> fst (get_latest_supervisor_layer_arn env self w) = Inr (PStr ''''))
     \<and> (find_loop layers (PStr (layer_name self)) = layer \<and> layer \<noteq> []
          \<and> map_of layer ''LatestMatchingVersion'' = Some (PDict info)
          \<and> map_of info ''LayerVersionArn'' = Some arn
        \<longrightarrow> fst (get_latest_supervisor_layer_arn env self w) = Inr arn)"
  by (auto simp: get_latest_supervisor_layer_arn_def latest_info_listed find_loop_absent
        monad_defs dict_item_def dict_get_def)

text \<open>With only another layer listed the result is the empty string; with the supervisor layer
  listed after it the result is the ARN of its latest version.\<close>

theorem latest_supervisor_layer_arn_witness:
  "fst (get_latest_supervisor_layer_arn (reference_env (Bytes []))
          \<lparr>layer_name = ''supervisor'', supervisor_version = ''1.5.0'', license_info = PNone\<rparr>
          (initial_world [[(''LayerName'', PStr ''other'')]] [])) = Inr (PStr '''')
   \<and> fst (get_latest_supervisor_layer_arn (reference_env (Bytes []))
          \<lparr>layer_name = ''supervisor'', supervisor_version = ''1.5.0'', license_info = PNone\<rparr>
          (initial_world
             [[(''LayerName'', PStr ''other'')],
              [(''LayerName'', PStr ''supervisor''),
               (''LatestMatchingVersion'',
                  PDict [(''Version'', PInt 3), (''Description'', PStr ''1.4.0''),
                         (''LayerVersionArn'', PStr ''arn:aws:lambda:layer:supervisor:3'')])]] []))
       = Inr (PStr ''arn:aws:lambda:layer:supervisor:3'')"
proof -
  let ?env = "reference_env (Bytes [])"
  let ?self = "\<lparr>layer_name = ''supervisor'', supervisor_version = ''1.5.0'', license_info = PNone\<rparr>"
  let ?info = "[(''Version'', PInt 3), (''Description'', PStr ''1.4.0''),
                (''LayerVersionArn'', PStr ''arn:aws:lambda:layer:supervisor:3'')]"
  let ?layer = "[(''LayerName'', PStr ''supervisor''), (''LatestMatchingVersion'', PDict ?info)]"
  let ?ls1 = "[[(''LayerName'', PStr ''other'')]]"
  let ?ls2 = "[[(''LayerName'', PStr ''other'')], ?layer]"
  have a: "fst (get_latest_supervisor_layer_arn ?env ?self (initial_world ?ls1 [])) = Inr (PStr '''')"
    using latest_supervisor_layer_arn[of ?env "initial_world ?ls1 []" ?ls1 ?self]
    by (simp add: reference_env_def initial_world_def dict_get_def)
  have b: "fst (get_latest_supervisor_layer_arn ?env ?self (initial_world ?ls2 []))
             = Inr (PStr ''arn:aws:lambda:layer:supervisor:3'')"
    using latest_supervisor_layer_arn[of ?env "initial_world ?ls2 []" ?ls2 ?self ?layer ?info
             "PStr ''arn:aws:lambda:layer:supervisor:3''"]
    by (simp add: reference_env_def initial_world_def dict_get_def)
  show ?thesis using a b by simp
qed

subsection \<open>Deleting a layer version\<close>

text \<open>
  C5. For every registry state, \<^verbatim>\<open>delete(name=...)\<close> without a version lists the layers and
  then issues the delete call with \<^verbatim>\<open>VersionNumber\<close> equal to the \<^verbatim>\<open>Version\<close> field of the
  latest matching version of the record found; when no record for the name is listed the call
  is still issued, with the sentinel \<open>-1\<close>. With \<^verbatim>\<open>version=V\<close>, \<open>V\<close> a version number, the
  delete call is issued with \<^verbatim>\<open>VersionNumber\<close> \<open>V\<close> and the layers are not listed, whatever the
  registry holds.
\<close>

theorem Layer_delete_version_number:
  "map_of kwargs ''name'' = Some name \<longrightarrow>
     (map_of kwargs ''version'' = None \<and> list_layers env (platform w) = Inr layers
        \<and> find_loop layers name = layer \<and> layer \<noteq> []
        \<and> map_of layer ''LatestMatchingVersion'' = Some (PDict info)
      \<longrightarrow> calls (snd (Layer_delete env kwargs w)) =
            calls w @ [ListLayers,
              DeleteLayerVersion [(''LayerName'', name),
                                  (''VersionNumber'', dict_get info ''Version'' (PInt (- 1)))]])
     \<and> (map_of kwargs ''version'' = None \<and> list_layers env (platform w) = Inr layers
         \<and> (\<forall>l\<in>set layers. dict_get l ''LayerName'' (PStr '''') \<noteq> name)
      \<longrightarrow> calls (snd (Layer_delete env kwargs w)) =
            calls w @ [ListLayers,
              DeleteLayerVersion [(''LayerName'', name), (''VersionNumber'', PInt (- 1))]])
     \<and> (map_of kwargs ''version'' = Some (PInt v)
      \<longrightarrow> calls (snd (Layer_delete env kwargs w)) =
            calls w @ [DeleteLayerVersion [(''LayerName'', name), (''VersionNumber'', PInt v)]])"
  by (auto simp: Layer_delete_def latest_info_listed find_loop_absent calls_client_delete
        monad_defs dict_item_def dict_get_def)

text \<open>Deleting the supervisor layer whose latest version is 3, deleting it when nothing is
  listed, and deleting version 7 of it.\<close>

theorem Layer_delete_version_number_witness:
  "calls (snd (Layer_delete (reference_env (Bytes [])) [(''name'', PStr ''supervisor'')]
      (initial_world
         [[(''LayerName'', PStr ''supervisor''),
           (''LatestMatchingVersion'',
              PDict [(''Version'', PInt 3), (''Description'', PStr ''1.4.0'')])]] [])))
     = [ListLayers,
        DeleteLayerVersion [(''LayerName'', PStr ''supervisor''), (''VersionNumber'', PInt 3)]]
   \<and> calls (snd (Layer_delete (reference_env (Bytes [])) [(''name'', PStr ''supervisor'')]
      (initial_world [] [])))
     = [ListLayers,
        DeleteLayerVersion [(''LayerName'', PStr ''supervisor''), (''VersionNumber'', PInt (- 1))]]
   \<and> calls (snd (Layer_delete (reference_env (Bytes []))
        [(''name'', PStr ''supervisor''), (''version'', PInt 7)] (initial_world [] [])))
     = [DeleteLayerVersion [(''LayerName'', PStr ''supervisor''), (''VersionNumber'', PInt 7)]]"
proof -
  let ?env = "reference_env (Bytes [])"
  let ?info = "[(''Version'', PInt 3), (''Description'', PStr ''1.4.0'')]"
  let ?layer = "[(''LayerName'', PStr ''supervisor''), (''LatestMatchingVersion'', PDict ?info)]"
  let ?kw = "[(''name'', PStr ''supervisor'')]"
  let ?kw7 = "[(''name'', PStr ''supervisor''), (''version'', PInt 7)]"
  have a: "calls (snd (Layer_delete ?env ?kw (initial_world [?layer] [])))
     = [ListLayers,
        DeleteLayerVersion [(''LayerName'', PStr ''supervisor''), (''VersionNumber'', PInt 3)]]"
    using Layer_delete_version_number[of ?kw "PStr ''supervisor''" ?env
        "initial_world [?layer] []" "[?layer]" ?layer ?info]
    by (simp add: reference_env_def initial_world_def dict_get_def)
  have b: "calls (snd (Layer_delete ?env ?kw (initial_world [] [])))
     = [ListLayers,
        DeleteLayerVersion [(''LayerName'', PStr ''supervisor''), (''VersionNumber'', PInt (- 1))]]"
    using Layer_delete_version_number[of ?kw "PStr ''supervisor''" ?env
        "initial_world [] []" "[]"]
    by (simp add: reference_env_def initial_world_def)
  have c: "calls (snd (Layer_delete ?env ?kw7 (initial_world [] [])))
     = [DeleteLayerVersion [(''LayerName'', PStr ''supervisor''), (''VersionNumber'', PInt 7)]]"
    using Layer_delete_version_number[where kwargs = ?kw7 and name = "PStr ''supervisor''"
        and v = 7 and env = ?env and w = "initial_world [] []"]
    by (simp add: initial_world_def)
  show ?thesis using a b c by simp
qed

text \<open>The separator characters 28 to 31 are not white space for \<^verbatim>\<open>int()\<close>, a no-break
  space around a string is, and around bytes it is not.\<close>

lemma py_int_white_space:
  "py_int (PStr [CHR 0x1C, CHR ''1'', CHR ''2'']) = Inl ValueError"
  "py_int (PStr [CHR 0xA0, CHR ''1'', CHR ''2'']) = Inr 12"
  "py_int (PBytes (Bytes [CHR 0xA0, CHR ''1'', CHR ''2''])) = Inl ValueError"
  by code_simp+

text \<open>
  C10. When \<^verbatim>\<open>delete\<close> is called with a \<^verbatim>\<open>version\<close> argument \<open>V\<close>, the value is coerced with
  \<^verbatim>\<open>int()\<close> before the registry call: if \<^verbatim>\<open>int(V)\<close> raises, \<^verbatim>\<open>delete\<close> raises the same error,
  no call reaches the client and the world is left as it was; if \<^verbatim>\<open>int(V)\<close> is \<open>i\<close>, the
  delete call is issued with \<^verbatim>\<open>VersionNumber\<close> \<open>i\<close>.
\<close>

theorem Layer_delete_coerces_version:
  "map_of kwargs ''name'' = Some name \<and> map_of kwargs ''version'' = Some v \<longrightarrow>
     (\<forall>e. py_int v = Inl e \<longrightarrow> Layer_delete env kwargs w = (Inl e, w))
     \<and> (\<forall>i. py_int v = Inr i \<longrightarrow>
           Layer_delete env kwargs w =
             client_delete_layer_version env
               [(''LayerName'', name), (''VersionNumber'', PInt i)] w
           \<and> calls (snd (Layer_delete env kwargs w)) =
               calls w @ [DeleteLayerVersion [(''LayerName'', name), (''VersionNumber'', PInt i)]])"
  by (auto simp: Layer_delete_def monad_defs dict_item_def calls_client_delete)

text \<open>The versions \<^verbatim>\<open>'latest'\<close> and \<^verbatim>\<open>None\<close> are refused before any call; the version
  \<^verbatim>\<open>' 12 '\<close> is sent as the integer 12.\<close>

theorem Layer_delete_coerces_version_witness:
  "Layer_delete (reference_env (Bytes []))
     [(''name'', PStr ''supervisor''), (''version'', PStr ''latest'')]
     (initial_world [[(''LayerName'', PStr ''supervisor'')]] [])
    = (Inl ValueError, initial_world [[(''LayerName'', PStr ''supervisor'')]] [])
   \<and> Layer_delete (reference_env (Bytes []))
     [(''name'', PStr ''supervisor''), (''version'', PNone)]
     (initial_world [[(''LayerName'', PStr ''supervisor'')]] [])
    = (Inl TypeError, initial_world [[(''LayerName'', PStr ''supervisor'')]] [])
   \<and> calls (snd (Layer_delete (reference_env (Bytes []))
     [(''name'', PStr ''supervisor''), (''version'', PStr '' 12 '')]
     (initial_world [[(''LayerName'', PStr ''supervisor'')]] [])))
    = [DeleteLayerVersion [(''LayerName'', PStr ''supervisor''), (''VersionNumber'', PInt 12)]]"
proof -
  let ?env = "reference_env (Bytes [])"
  let ?w = "initial_world [[(''LayerName'', PStr ''supervisor'')]] []"
  have l: "py_int (PStr ''latest'') = Inl ValueError"
    by code_simp
  have n: "py_int PNone = Inl TypeError"
    by simp
  have i: "py_int (PStr '' 12 '') = Inr 12"
    by code_simp
  have a: "Layer_delete ?env [(''name'', PStr ''supervisor''), (''version'', PStr ''latest'')] ?w
            = (Inl ValueError, ?w)"
    using Layer_delete_coerces_version[of
        "[(''name'', PStr ''supervisor''), (''version'', PStr ''latest'')]"
        "PStr ''supervisor''" "PStr ''latest''" ?env ?w] l
    by simp
  have b: "Layer_delete ?env [(''name'', PStr ''supervisor''), (''version'', PNone)] ?w
            = (Inl TypeError, ?w)"
    using Layer_delete_coerces_version[of
        "[(''name'', PStr ''supervisor''), (''version'', PNone)]"
        "PStr ''supervisor''" PNone ?env ?w] n
    by simp
  have c: "calls (snd (Layer_delete ?env
             [(''name'', PStr ''supervisor''), (''version'', PStr '' 12 '')] ?w))
    = [DeleteLayerVersion [(''LayerName'', PStr ''supervisor''), (''VersionNumber'', PInt 12)]]"
    using Layer_delete_coerces_version[of
        "[(''name'', PStr ''supervisor''), (''version'', PStr '' 12 '')]"
        "PStr ''supervisor''" "PStr '' 12 ''" ?env ?w] i
    by (simp add: initial_world_def calls_client_delete)
  show ?thesis using a b c by simp
qed

section \<open>Actions on the files\<close>

lemma files_only_return: "files_only (return a)"
  by (simp add: files_only_def return_def)

lemma files_only_raise: "files_only (raise e)"
  by (simp add: files_only_def raise_def)

lemma files_only_lift: "files_only (lift r)"
  by (simp add: files_only_def lift_def)

lemma files_only_bind:
  assumes m: "files_only m" and f: "\<And>a. files_only (f a)"
  shows "files_only (bind m f)"
  unfolding files_only_def
proof
  fix w
  obtain r w1 where mw: "m w = (r, w1)" by (cases "m w")
  then have w1: "platform w1 = platform w \<and> calls w1 = calls w \<and> logged w1 = logged w"
    using m unfolding files_only_def by (metis snd_conv)
  show "platform (snd (bind m f w)) = platform w \<and> calls (snd (bind m f w)) = calls w
          \<and> logged (snd (bind m f w)) = logged w"
  proof (cases r)
    case (Inl e)
    then show ?thesis using mw w1 by (simp add: bind_def)
  next
    case (Inr a)
    then have "bind m f w = f a w1" using mw by (simp add: bind_def)
    then show ?thesis using f[of a] w1 unfolding files_only_def by simp
  qed
qed

lemma files_only_zip_extract: "files_only (zip_extract thezip member path)"
  by (simp add: files_only_def zip_extract_def split: option.splits)

lemma files_only_zip_extractall: "files_only (zip_extractall thezip members path)"
  by (induction members) (simp_all add: files_only_return files_only_bind files_only_zip_extract)

lemma files_only_shutil_move: "files_only (shutil_move src dst)"
  by (simp add: files_only_def shutil_move_def Let_def split: option.splits)

lemma files_only_get_all_files: "files_only (get_all_files_in_directory d)"
  by (simp add: files_only_def get_all_files_in_directory_def)

lemma files_only_unzip_folder: "files_only (unzip_folder zip_path d)"
  using files_only_zip_extractall[unfolded files_only_def]
  by (auto simp: files_only_def unzip_folder_def split: option.splits sum.splits)

lemma files_only_zip_folder: "files_only (zip_folder zip_path d)"
  by (simp add: files_only_def zip_folder_def Let_def)

lemma files_only_read_file: "files_only (read_file path)"
  by (simp add: files_only_def read_file_def split: option.splits)

lemma files_only_extract_loop: "files_only (extract_loop thezip t names parent)"
proof (induction names arbitrary: parent)
  case Nil
  then show ?case by (simp add: files_only_return)
next
  case (Cons name rest)
  show ?case
    by (auto simp: files_only_raise files_only_return files_only_zip_extract Cons
          split: list.splits intro!: files_only_bind)
qed

lemma files_only_download_supervisor: "files_only (download_supervisor env v t)"
  unfolding download_supervisor_def
  by (auto intro!: files_only_bind files_only_lift files_only_extract_loop
        simp: files_only_raise files_only_return split: option.splits)

lemma files_only_unzip_each: "files_only (unzip_each paths d)"
  by (induction paths) (simp_all add: files_only_return files_only_bind files_only_unzip_folder)

lemma files_only_packaging: "files_only (packaging env self)"
  unfolding packaging_def create_tmp_folders_def copy_supervisor_files_def copy_extra_files_def
    create_layer_zip_def get_supervisor_layer_props_def
  by (auto intro!: files_only_bind files_only_download_supervisor files_only_shutil_move
        files_only_get_all_files files_only_unzip_each files_only_zip_folder files_only_read_file
        files_only_return simp: Let_def)

lemma create_layer_packaging:
  "create_layer env self =
     bind (packaging env self) (\<lambda>props.
     bind (Layer_create env props) (\<lambda>_. delete_file (layer_zip_path env self)))"
  by (simp add: create_layer_def packaging_def layer_zip_path_def create_tmp_folders_def
        bind_assoc Let_def)

lemma publishes_append: "publishes (xs @ ys) = publishes xs @ publishes ys"
  by (induction xs rule: publishes.induct) simp_all

lemma bind_returnsE:
  assumes "bind m f w = (Inr b, w1)"
  obtains a w0 where "m w = (Inr a, w0)" and "f a w0 = (Inr b, w1)"
  using assms by (auto simp: bind_def split: prod.splits sum.splits)

lemma packaging_result:
  assumes "packaging env self w = (Inr props, w1)"
  shows "\<exists>content. map_of (files w1) (layer_zip_path env self) = Some content
           \<and> props = [(''LayerName'', PStr (layer_name self)),
                      (''Description'', PStr (supervisor_version self)),
                      (''Content'', PDict [(''ZipFile'', PBytes content)]),
                      (''LicenseInfo'', license_info self)]"
proof -
  from assms obtain w0 where
    "get_supervisor_layer_props self (layer_zip_path env self) w0 = (Inr props, w1)"
    unfolding packaging_def create_tmp_folders_def
    by (auto elim!: bind_returnsE)
  then show ?thesis
    by (auto simp: get_supervisor_layer_props_def read_file_def monad_defs split: option.splits)
qed

lemma packaging_frame:
  "packaging env self w = (r, w1) \<Longrightarrow>
   platform w1 = platform w \<and> calls w1 = calls w \<and> logged w1 = logged w"
  using files_only_packaging[of env self] unfolding files_only_def by (metis snd_conv)

lemma create_layer_cases:
  "create_layer env self w =
     (case packaging env self w of
        (Inl e, w1) \<Rightarrow> (Inl e, w1)
      | (Inr props, w1) \<Rightarrow>
          (case publish_layer_version env props (platform w1) of
             (Inl e, p) \<Rightarrow>
               (Inl e, w1\<lparr>platform := p, calls := calls w1 @ [PublishLayerVersion props]\<rparr>)
           | (Inr v, p) \<Rightarrow>
               (Inr (), w1\<lparr>platform := p, calls := calls w1 @ [PublishLayerVersion props],
                          files := AList.delete (layer_zip_path env self) (files w1)\<rparr>)))"
  by (simp add: create_layer_packaging bind_def Layer_create_def
        client_publish_layer_version_def delete_file_def split: prod.splits sum.splits)

lemma create_layer_publishes:
  assumes "create_layer env self w = (r, w1)"
  shows "logged w1 = logged w \<and>
    (\<exists>ps. publishes (calls w1) = publishes (calls w) @ ps \<and> length ps \<le> 1
       \<and> (\<forall>kw\<in>set ps. map_of kw ''LayerName'' = Some (PStr (layer_name self))
                    \<and> map_of kw ''Description'' = Some (PStr (supervisor_version self)))
       \<and> (r = Inr () \<longrightarrow> length ps = 1))"
proof -
  obtain rp wp where p: "packaging env self w = (rp, wp)" by (cases "packaging env self w")
  note fr = packaging_frame[OF p]
  show ?thesis
  proof (cases rp)
    case (Inl e)
    then have "r = Inl e" "w1 = wp" using assms p by (simp_all add: create_layer_cases)
    then show ?thesis using fr by simp
  next
    case (Inr props)
    then obtain content where props: "props = [(''LayerName'', PStr (layer_name self)),
                      (''Description'', PStr (supervisor_version self)),
                      (''Content'', PDict [(''ZipFile'', PBytes content)]),
                      (''LicenseInfo'', license_info self)]"
      using packaging_result[of env self w props wp] p by auto
    have "logged w1 = logged w \<and> publishes (calls w1) = publishes (calls w) @ [props]"
      using assms p Inr fr
      by (auto simp: create_layer_cases publishes_append split: prod.splits sum.splits)
    then show ?thesis using props by simp
  qed
qed

lemma create_supervisor_layer_outcome:
  assumes "create_supervisor_layer env self w = (r, w1)"
  shows "(\<exists>ls. logged w1 = logged w @ (''Creating '' @ quoted (layer_name self) @ '' layer.'') # ls) \<and>
    (\<exists>ps. publishes (calls w1) = publishes (calls w) @ ps \<and> length ps \<le> 1
       \<and> (\<forall>kw\<in>set ps. map_of kw ''LayerName'' = Some (PStr (layer_name self))
                    \<and> map_of kw ''Description'' = Some (PStr (supervisor_version self)))
       \<and> (r = Inr () \<longrightarrow> length ps = 1))"
proof -
  let ?w0 = "w\<lparr>logged := logged w @ [''Creating '' @ quoted (layer_name self) @ '' layer.'']\<rparr>"
  obtain rc wc where c: "create_layer env self ?w0 = (rc, wc)"
    by (cases "create_layer env self ?w0")
  have "r = rc \<and> calls w1 = calls wc \<and> (\<exists>ls. logged w1 = logged wc @ ls)"
    using assms c
    by (auto simp: create_supervisor_layer_def bind_def logger_info_def split: sum.splits)
  then show ?thesis using create_layer_publishes[OF c] by auto
qed

lemma update_supervisor_layer_outcome:
  assumes "update_supervisor_layer env self w = (r, w1)"
  shows "(\<exists>ls. logged w1 = logged w @ (''Updating '' @ quoted (layer_name self) @ '' layer.'') # ls) \<and>
    (\<exists>ps. publishes (calls w1) = publishes (calls w) @ ps \<and> length ps \<le> 1
       \<and> (\<forall>kw\<in>set ps. map_of kw ''LayerName'' = Some (PStr (layer_name self))
                    \<and> map_of kw ''Description'' = Some (PStr (supervisor_version self)))
       \<and> (r = Inr () \<longrightarrow> length ps = 1))"
proof -
  let ?w0 = "w\<lparr>logged := logged w @ [''Updating '' @ quoted (layer_name self) @ '' layer.'']\<rparr>"
  obtain rc wc where c: "create_layer env self ?w0 = (rc, wc)"
    by (cases "create_layer env self ?w0")
  have "r = rc \<and> calls w1 = calls wc \<and> (\<exists>ls. logged w1 = logged wc @ ls)"
    using assms c
    by (auto simp: update_supervisor_layer_def bind_def logger_info_def split: sum.splits)
  then show ?thesis using create_layer_publishes[OF c] by auto
qed

lemma check_with_info:
  assumes "Layer_get_latest_layer_info env (PStr (layer_name self)) w = (Inr (PDict info), w0)"
  shows "check_faas_supervisor_layer env self w =
     (case map_of info ''Description'' of
        None \<Rightarrow> create_supervisor_layer env self w0
      | Some description \<Rightarrow>
          (case compare_versions env description (PStr (supervisor_version self)) of
             Inl e \<Rightarrow> (Inl e, w0)
           | Inr c \<Rightarrow>
               if c < 0 then update_supervisor_layer env self w0
               else (Inr (), w0\<lparr>logged := logged w0 @
                       [''Using existent '' @ quoted (layer_name self) @ '' layer'']\<rparr>)))"
  using assms
  by (cases info)
     (auto simp: check_faas_supervisor_layer_def monad_defs dict_get_def logger_info_def
        split: option.splits sum.splits)

lemma latest_info_snd:
  "snd (Layer_get_latest_layer_info env n w) = w\<lparr>calls := calls w @ [ListLayers]\<rparr>"
  by (cases "list_layers env (platform w)")
     (simp_all add: Layer_get_latest_layer_info_def Layer_find_def client_list_layers_def monad_defs)

lemma latest_info_fst:
  "platform w = platform w' \<Longrightarrow>
   fst (Layer_get_latest_layer_info env n w) = fst (Layer_get_latest_layer_info env n w')"
  by (cases "list_layers env (platform w')")
     (simp_all add: Layer_get_latest_layer_info_def Layer_find_def client_list_layers_def monad_defs)

lemma find_loop_first:
  "\<forall>l\<in>set before. dict_get l ''LayerName'' (PStr '''') \<noteq> n \<Longrightarrow>
   map_of layer ''LayerName'' = Some n \<Longrightarrow>
   find_loop (before @ layer # rest) n = layer"
  by (induction before) (auto simp: dict_get_def)

lemma create_layer_success:
  assumes "create_layer env self w = (Inr (), w1)"
  shows "\<exists>props res p.
           map_of props ''LayerName'' = Some (PStr (layer_name self))
         \<and> map_of props ''Description'' = Some (PStr (supervisor_version self))
         \<and> publish_layer_version env props p = (Inr res, platform w1)"
proof -
  obtain rp wp where p: "packaging env self w = (rp, wp)" by (cases "packaging env self w")
  show ?thesis
  proof (cases rp)
    case (Inl e)
    then show ?thesis using assms p by (simp add: create_layer_cases)
  next
    case (Inr props)
    then obtain content where props: "props = [(''LayerName'', PStr (layer_name self)),
                      (''Description'', PStr (supervisor_version self)),
                      (''Content'', PDict [(''ZipFile'', PBytes content)]),
                      (''LicenseInfo'', license_info self)]"
      using packaging_result[of env self w props wp] p by auto
    obtain r2 p2 where pub: "publish_layer_version env props (platform wp) = (r2, p2)"
      by (cases "publish_layer_version env props (platform wp)")
    then obtain res where "r2 = Inr res" "platform w1 = p2"
      using assms p Inr by (cases r2) (auto simp: create_layer_cases)
    then have "publish_layer_version env props (platform wp) = (Inr res, platform w1)"
      using pub by simp
    moreover have "map_of props ''LayerName'' = Some (PStr (layer_name self))"
      "map_of props ''Description'' = Some (PStr (supervisor_version self))"
      by (simp_all add: props)
    ultimately show ?thesis by blast
  qed
qed

lemma flow_success:
  assumes "create_supervisor_layer env self w = (Inr (), w1)
           \<or> update_supervisor_layer env self w = (Inr (), w1)"
  shows "\<exists>props res p.
           map_of props ''LayerName'' = Some (PStr (layer_name self))
         \<and> map_of props ''Description'' = Some (PStr (supervisor_version self))
         \<and> publish_layer_version env props p = (Inr res, platform w1)"
proof -
  from assms obtain msg wc msg' where
    c: "create_layer env self (w\<lparr>logged := logged w @ [msg]\<rparr>) = (Inr (), wc)"
    and w1: "w1 = wc\<lparr>logged := logged wc @ [msg']\<rparr>"
    by (auto simp: create_supervisor_layer_def update_supervisor_layer_def bind_def
          logger_info_def split: prod.splits sum.splits)
  have "platform w1 = platform wc" by (subst w1) simp
  then show ?thesis using create_layer_success[OF c] by simp
qed

lemma check_branches:
  assumes "check_faas_supervisor_layer env self w = (r, w1)"
  shows "(r = Inr ()
          \<and> w1 = w\<lparr>calls := calls w @ [ListLayers],
                   logged := logged w @ [''Using existent '' @ quoted (layer_name self) @ '' layer'']\<rparr>
          \<and> (\<forall>w'. platform w' = platform w \<longrightarrow>
                check_faas_supervisor_layer env self w' =
                  (Inr (), w'\<lparr>calls := calls w' @ [ListLayers],
                   logged := logged w' @ [''Using existent '' @ quoted (layer_name self) @ '' layer'']\<rparr>)))
       \<or> create_supervisor_layer env self (w\<lparr>calls := calls w @ [ListLayers]\<rparr>) = (r, w1)
       \<or> update_supervisor_layer env self (w\<lparr>calls := calls w @ [ListLayers]\<rparr>) = (r, w1)
       \<or> (\<exists>e. r = Inl e)"
proof -
  let ?n = "PStr (layer_name self)"
  let ?w0 = "w\<lparr>calls := calls w @ [ListLayers]\<rparr>"
  let ?using = "''Using existent '' @ quoted (layer_name self) @ '' layer''"
  obtain ri where li: "Layer_get_latest_layer_info env ?n w = (ri, ?w0)"
    using latest_info_snd[of env ?n w] by (cases "Layer_get_latest_layer_info env ?n w") simp
  have noop: "?thesis"
    if h: "ri = Inr info" "truthy info" "py_in ''Description'' info = Inr True"
      "py_get info ''Description'' (PStr '''') = Inr d"
      "compare_versions env d (PStr (supervisor_version self)) = Inr c" "\<not> c < 0"
    for info d c
  proof -
    have a: "check_faas_supervisor_layer env self w' =
                  (Inr (), w'\<lparr>calls := calls w' @ [ListLayers], logged := logged w' @ [?using]\<rparr>)"
      if "platform w' = platform w" for w'
    proof -
      have "fst (Layer_get_latest_layer_info env ?n w') = Inr info"
        using latest_info_fst[OF that, of env ?n] li h(1) by simp
      then have "Layer_get_latest_layer_info env ?n w' = (Inr info, w'\<lparr>calls := calls w' @ [ListLayers]\<rparr>)"
        using latest_info_snd[of env ?n w'] by (cases "Layer_get_latest_layer_info env ?n w'") simp
      then show ?thesis using h
        by (simp add: check_faas_supervisor_layer_def monad_defs logger_info_def)
    qed
    from a[of w] assms have "r = Inr () \<and> w1 = w\<lparr>calls := calls w @ [ListLayers], logged := logged w @ [?using]\<rparr>"
      by simp
    then show ?thesis using a by blast
  qed
  show ?thesis
  proof (cases ri)
    case (Inl e)
    then have "r = Inl e"
      using assms li by (simp add: check_faas_supervisor_layer_def bind_def)
    then show ?thesis by blast
  next
    case (Inr info)
    show ?thesis
    proof (cases "if truthy info then py_in ''Description'' info else Inr False")
      case (Inl e)
      then have "r = Inl e"
        using assms li Inr by (auto simp: check_faas_supervisor_layer_def monad_defs split: if_splits)
      then show ?thesis by blast
    next
      case hd: (Inr b)
      show ?thesis
      proof (cases b)
        case False
        then have "create_supervisor_layer env self ?w0 = (r, w1)"
          using assms li Inr hd
          by (auto simp: check_faas_supervisor_layer_def monad_defs split: if_splits)
        then show ?thesis by blast
      next
        case True
        then have t: "truthy info" "py_in ''Description'' info = Inr True"
          using hd by (auto split: if_splits)
        show ?thesis
        proof (cases "py_get info ''Description'' (PStr '''')")
          case (Inl e)
          then have "r = Inl e"
            using assms li Inr t by (simp add: check_faas_supervisor_layer_def monad_defs)
          then show ?thesis by blast
        next
          case d: (Inr d)
          show ?thesis
          proof (cases "compare_versions env d (PStr (supervisor_version self))")
            case (Inl e)
            then have "r = Inl e"
              using assms li Inr t d by (simp add: check_faas_supervisor_layer_def monad_defs)
            then show ?thesis by blast
          next
            case c: (Inr c)
            show ?thesis
            proof (cases "c < 0")
              case True
              then have "update_supervisor_layer env self ?w0 = (r, w1)"
                using assms li Inr t d c by (simp add: check_faas_supervisor_layer_def monad_defs)
              then show ?thesis by blast
            next
              case False
              then show ?thesis using noop[OF Inr t d c] by blast
            qed
          qed
        qed
      qed
    qed
  qed
qed

section \<open>Fetching\<close>

subsection \<open>Errors of the fetch step\<close>

text \<open>
  C8, as amended. The fetch step handles no error and has no error classes of its own, neither
  a \<^verbatim>\<open>FetchError\<close> nor an \<^verbatim>\<open>ArchiveFormatError\<close>: when resolving the URL or the remote
  retrieval fails, the error of the collaborator propagates unchanged and nothing is extracted;
  when the downloaded bytes are no zip archive, the \<^verbatim>\<open>BadZipFile\<close> of the zip library
  propagates.
\<close>

theorem download_supervisor_error_kinds:
  "(get_source_code_url env (GITHUB_USER env) (GITHUB_SUPERVISOR_PROJECT env) v = Inl e
      \<longrightarrow> download_supervisor env v t w = (Inl e, w))
   \<and> (get_source_code_url env (GITHUB_USER env) (GITHUB_SUPERVISOR_PROJECT env) v = Inr url
       \<and> get_file env url = Inl e
      \<longrightarrow> download_supervisor env v t w = (Inl e, w))
   \<and> (get_source_code_url env (GITHUB_USER env) (GITHUB_SUPERVISOR_PROJECT env) v = Inr url
       \<and> get_file env url = Inr (Bytes s)
      \<longrightarrow> download_supervisor env v t w = (Inl BadZipFile, w))"
  by (simp add: download_supervisor_def monad_defs)

text \<open>A download that fails with an HTTP error, and a download that is a web page.\<close>

theorem download_supervisor_error_kinds_witness:
  "download_supervisor failing_get_file_env ''1.5.0'' ''/tmp/zip'' (initial_world [] [])
     = (Inl (Other ''HTTPError''), initial_world [] [])
   \<and> download_supervisor (reference_env (Bytes ''<html>'')) ''1.5.0'' ''/tmp/zip''
       (initial_world [] [])
     = (Inl BadZipFile, initial_world [] [])"
proof -
  let ?url = "''https://github.com/grycap/faas-supervisor/archive/1.5.0.zip''"
  have a: "download_supervisor failing_get_file_env ''1.5.0'' ''/tmp/zip'' (initial_world [] [])
     = (Inl (Other ''HTTPError''), initial_world [] [])"
    using download_supervisor_error_kinds[of failing_get_file_env "''1.5.0''" _ _ _ ?url]
    by (simp add: failing_get_file_env_def reference_env_def)
  have b: "download_supervisor (reference_env (Bytes ''<html>'')) ''1.5.0'' ''/tmp/zip''
       (initial_world [] [])
     = (Inl BadZipFile, initial_world [] [])"
    using download_supervisor_error_kinds[of "reference_env (Bytes ''<html>'')" "''1.5.0''"
        _ _ _ ?url]
    by (simp add: reference_env_def)
  show ?thesis using a b by simp
qed

text \<open>
  The claim as first stated fails on the two inputs it names. For an archive with no entries
  the loop never binds \<^verbatim>\<open>parent_folder\<close> and the \<^verbatim>\<open>return\<close> raises
  \<^verbatim>\<open>UnboundLocalError\<close>; for an entry without a separator the unpacking of the split raises
  \<^verbatim>\<open>ValueError\<close>.
\<close>

theorem download_supervisor_counterexample:
  "fst (download_supervisor (reference_env (Zip [])) ''1.5.0'' ''/tmp/zip'' (initial_world [] []))
     = Inl (UnboundLocalError ''parent_folder'')
   \<and> fst (download_supervisor (reference_env (Zip [(''README.md'', Bytes ''readme'')])) ''1.5.0''
           ''/tmp/zip'' (initial_world [] []))
     = Inl ValueError"
  by code_simp

subsection \<open>The entries extracted\<close>

text \<open>
  C3. The claim says that exactly the entries below \<^verbatim>\<open>extra/\<close> and \<^verbatim>\<open>faassupervisor/\<close> are
  extracted. The code tests the stripped path with \<^verbatim>\<open>startswith("extra")\<close> and
  \<^verbatim>\<open>startswith("faassupervisor")\<close>, without the separator: on a release that holds
  \<^verbatim>\<open>extras/notes.txt\<close> and \<^verbatim>\<open>faassupervisor.md\<close> beside \<^verbatim>\<open>faassupervisor/a.py\<close>, all
  three files are extracted.
\<close>

theorem download_supervisor_extracts_siblings:
  "download_supervisor (reference_env release_with_sibling) ''1.5.0'' ''/tmp/zip''
     (initial_world [] [])
   = (Inr ''faas-supervisor-1.5.0'',
      initial_world []
        [(''/tmp/zip/faas-supervisor-1.5.0/extras/notes.txt'', Bytes ''notes''),
         (''/tmp/zip/faas-supervisor-1.5.0/faassupervisor.md'', Bytes ''docs''),
         (''/tmp/zip/faas-supervisor-1.5.0/faassupervisor/a.py'', Bytes ''import sys'')])"
  by code_simp

section \<open>Packaging\<close>

lemma update_fresh: "k \<notin> fst ` set al \<Longrightarrow> AList.update k v al = al @ [(k, v)]"
  by (induction al) auto

lemma filter_fresh:
  "\<forall>q\<in>fst ` set fs. \<not> P q \<Longrightarrow> filter (\<lambda>(q, b). P q) fs = []"
  by (induction fs) auto

lemma list_ex_fresh:
  "\<forall>q\<in>fst ` set fs. \<not> P q \<Longrightarrow> \<not> list_ex (\<lambda>(q, b). P q) fs"
  by (induction fs) auto

lemma map_fresh:
  "\<forall>q\<in>fst ` set fs. \<not> P q \<Longrightarrow> map (\<lambda>(q, b). if P q then f q b else (q, b)) fs = fs"
  by (induction fs) auto

lemma map_of_fresh: "k \<notin> fst ` set fs \<Longrightarrow> map_of (fs @ xs) k = map_of xs k"
  by (induction fs) auto

lemma prefix_apart:
  "\<not> prefix a b \<Longrightarrow> \<not> prefix b a \<Longrightarrow> \<not> prefix (a @ r) (b @ s)"
  by (metis append_prefixD prefix_append prefix_def)

lemma split_once_parent:
  assumes "CHR ''/'' \<notin> set p"
  shows "split_once (p @ CHR ''/'' # rest) = [p, rest]"
proof -
  have "takeWhile (\<lambda>c. c \<noteq> CHR ''/'') (p @ CHR ''/'' # rest) = p"
    using assms by (induction p) auto
  moreover have "dropWhile (\<lambda>c. c \<noteq> CHR ''/'') (p @ CHR ''/'' # rest) = CHR ''/'' # rest"
    using assms by (induction p) auto
  ultimately show ?thesis by (simp add: split_once_def)
qed

lemma below_sub: "below (d @ CHR ''/'' # s) q \<Longrightarrow> below d q"
  unfolding below_def by (metis append.assoc append_Cons append_Nil append_prefixD)

lemma below_self: "below d (d @ CHR ''/'' # r)"
  by (simp add: below_def)

lemma packaging_two_entries:
  fixes env :: "'p env" and w :: "'p world"
  defines "t \<equiv> tmp_zip_folder env" and "c \<equiv> layer_code_folder env"
  assumes url: "get_source_code_url env (GITHUB_USER env) (GITHUB_SUPERVISOR_PROJECT env)
                  (supervisor_version self) = Inr url"
      and release: "get_file env url =
                  Inr (Zip [(p @ ''/faassupervisor/a.py'', a),
                            (p @ ''/extra/bundle.zip'', Zip [(''b.txt'', b)])])"
      and top: "CHR ''/'' \<notin> set p"
      and fresh: "\<forall>q\<in>fst ` set (files w). \<not> below t q \<and> \<not> below c q"
      and apart: "\<not> prefix (t @ ''/'') (c @ ''/'')" "\<not> prefix (c @ ''/'') (t @ ''/'')"
  shows "packaging env self w =
     (Inr [(''LayerName'', PStr (layer_name self)),
           (''Description'', PStr (supervisor_version self)),
           (''Content'', PDict [(''ZipFile'',
              PBytes (Zip [(''python/faassupervisor/a.py'', a), (''b.txt'', b)]))]),
           (''LicenseInfo'', license_info self)],
      w\<lparr>files := AList.update (layer_zip_path env self)
                  (Zip [(''python/faassupervisor/a.py'', a), (''b.txt'', b)])
                  (files w @ [(c @ ''/python/faassupervisor/a.py'', a),
                              (t @ ''/'' @ p @ ''/extra/bundle.zip'', Zip [(''b.txt'', b)]),
                              (c @ ''/b.txt'', b)])\<rparr>)"
proof -
  let ?Z = "Zip [(''b.txt'', b)]"
  let ?n1 = "p @ ''/faassupervisor/a.py''"
  let ?n2 = "p @ ''/extra/bundle.zip''"
  let ?thezip = "[(?n1, a), (?n2, ?Z)]"
  let ?ka = "t @ CHR ''/'' # p @ ''/faassupervisor/a.py''"
  let ?kz = "t @ CHR ''/'' # p @ ''/extra/bundle.zip''"
  let ?src = "t @ CHR ''/'' # p @ ''/faassupervisor''"
  let ?dst = "c @ ''/python/faassupervisor''"
  let ?extra = "t @ CHR ''/'' # p @ ''/extra''"
  let ?ka' = "c @ ''/python/faassupervisor/a.py''"
  let ?kb = "c @ ''/b.txt''"
  let ?fs0 = "files w"
  let ?final = "Zip [(''python/faassupervisor/a.py'', a), (''b.txt'', b)]"

  have tc: "\<not> prefix (t @ CHR ''/'' # r) (c @ CHR ''/'' # s)" for r s
    using prefix_apart[OF apart(1) apart(2), of r s] by simp
  have ct: "\<not> prefix (c @ CHR ''/'' # r) (t @ CHR ''/'' # s)" for r s
    using prefix_apart[OF apart(2) apart(1), of r s] by simp
  have ne: "c @ CHR ''/'' # r \<noteq> t @ CHR ''/'' # s" for r s
    using ct[of r s] by auto
  have ft: "\<not> below (t @ CHR ''/'' # s) q" if "q \<in> fst ` set ?fs0" for q s
    using that fresh below_sub[of t s q] by blast
  have fc: "\<not> below (c @ CHR ''/'' # s) q" if "q \<in> fst ` set ?fs0" for q s
    using that fresh below_sub[of c s q] by blast
  have fc0: "\<not> below c q" if "q \<in> fst ` set ?fs0" for q
    using that fresh by blast
  have kt: "t @ CHR ''/'' # r \<notin> fst ` set ?fs0" for r
    using fresh below_self[of t r] by blast
  have kc: "c @ CHR ''/'' # r \<notin> fst ` set ?fs0" for r
    using fresh below_self[of c r] by blast

  have e1: "zip_extract ?thezip ?n1 t w = (Inr (), w\<lparr>files := ?fs0 @ [(?ka, a)]\<rparr>)"
    by (simp add: zip_extract_def is_dir_entry_def update_fresh kt)
  have e2: "zip_extract ?thezip ?n2 t (w\<lparr>files := ?fs0 @ [(?ka, a)]\<rparr>)
              = (Inr (), w\<lparr>files := ?fs0 @ [(?ka, a), (?kz, ?Z)]\<rparr>)"
    by (simp add: zip_extract_def is_dir_entry_def update_fresh kt)
  have A: "download_supervisor env (supervisor_version self) t w
             = (Inr p, w\<lparr>files := ?fs0 @ [(?ka, a), (?kz, ?Z)]\<rparr>)"
    using e1 e2
    by (simp add: download_supervisor_def url release monad_defs split_once_parent[OF top])

  have B: "copy_supervisor_files p t c (w\<lparr>files := ?fs0 @ [(?ka, a), (?kz, ?Z)]\<rparr>)
             = (Inr (), w\<lparr>files := ?fs0 @ [(?ka', a), (?kz, ?Z)]\<rparr>)"
  proof -
    have d: "\<not> isdir (?fs0 @ [(?ka, a), (?kz, ?Z)]) ?dst"
      using list_ex_fresh[of ?fs0 "below ?dst"] fc[of _ "''python/faassupervisor''"]
      by (simp add: isdir_def below_def ct)
    have s: "isdir (?fs0 @ [(?ka, a), (?kz, ?Z)]) ?src"
      by (simp add: isdir_def below_def)
    have m: "map_of (?fs0 @ [(?ka, a), (?kz, ?Z)]) ?dst = None"
      using kc[of "''python/faassupervisor''"] ne by (simp add: map_of_eq_None_iff)
    have mp: "map (\<lambda>(q, b). if below ?src q then (?dst @ drop (length ?src) q, b) else (q, b)) ?fs0
               = ?fs0"
      using map_fresh[of ?fs0 "below ?src" "\<lambda>q b. (?dst @ drop (length ?src) q, b)"]
        ft[of _ "p @ ''/faassupervisor''"] by simp
    have dr: "drop (length ?src) ?ka = ''/a.py''"
    proof -
      have "?ka = ?src @ ''/a.py''" by simp
      then show ?thesis by (metis append_eq_conv_conj)
    qed
    show ?thesis
      using d s m mp dr
      by (simp add: copy_supervisor_files_def shutil_move_def Let_def below_def)
  qed
  let ?fs3 = "?fs0 @ [(?ka', a), (?kz, ?Z)]"
  have C: "copy_extra_files p t c (w\<lparr>files := ?fs3\<rparr>)
             = (Inr (), w\<lparr>files := ?fs0 @ [(?ka', a), (?kz, ?Z), (?kb, b)]\<rparr>)"
  proof -
    have l: "filter (\<lambda>(q, b). below ?extra q) ?fs3 = [(?kz, ?Z)]"
      using filter_fresh[of ?fs0 "below ?extra"] ft[of _ "p @ ''/extra''"]
      by (simp add: below_def tc)
    have "map_of ?fs3 ?kz = map_of [(?ka', a), (?kz, ?Z)] ?kz"
      by (rule map_of_fresh[OF kt])
    then have r: "map_of ?fs3 ?kz = Some ?Z"
      using ne[of "''python/faassupervisor/a.py''" "p @ ''/extra/bundle.zip''"] by simp
    have x: "zip_extract [(''b.txt'', b)] ''b.txt'' c (w\<lparr>files := ?fs3\<rparr>)
               = (Inr (), w\<lparr>files := ?fs3 @ [(?kb, b)]\<rparr>)"
      using kc[of "''b.txt''"] ne
      by (simp add: zip_extract_def is_dir_entry_def update_fresh)
    have u: "unzip_folder ?kz c (w\<lparr>files := ?fs3\<rparr>)
               = (Inr (), w\<lparr>files := ?fs3 @ [(?kb, b)]\<rparr>)"
      using r x by (simp add: unzip_folder_def monad_defs)
    show ?thesis
      using l u
      by (simp add: copy_extra_files_def get_all_files_in_directory_def Let_def monad_defs)
  qed
  let ?fs4 = "?fs0 @ [(?ka', a), (?kz, ?Z), (?kb, b)]"
  have D: "create_layer_zip (layer_zip_path env self) c (w\<lparr>files := ?fs4\<rparr>)
             = (Inr (), w\<lparr>files := AList.update (layer_zip_path env self) ?final ?fs4\<rparr>)"
  proof -
    have "filter (\<lambda>(q, b). below c q) ?fs4 = [(?ka', a), (?kb, b)]"
      using filter_fresh[of ?fs0 "below c"] fc0 ct[of "[]"]
      by (simp add: below_def)
    then show ?thesis
      by (simp add: create_layer_zip_def zip_folder_def Let_def)
  qed
  have E: "get_supervisor_layer_props self (layer_zip_path env self)
             (w\<lparr>files := AList.update (layer_zip_path env self) ?final ?fs4\<rparr>)
           = (Inr [(''LayerName'', PStr (layer_name self)),
                   (''Description'', PStr (supervisor_version self)),
                   (''Content'', PDict [(''ZipFile'', PBytes ?final)]),
                   (''LicenseInfo'', license_info self)],
              w\<lparr>files := AList.update (layer_zip_path env self) ?final ?fs4\<rparr>)"
    by (simp add: get_supervisor_layer_props_def read_file_def monad_defs update_conv')
  show ?thesis
    using A B C D E
    by (simp add: packaging_def create_tmp_folders_def bind_def t_def c_def)
qed

subsection \<open>The packaged archive\<close>

text \<open>
  C2. Let the downloaded archive have the entries \<^verbatim>\<open>faassupervisor/a.py\<close> and
  \<^verbatim>\<open>extra/bundle.zip\<close> below its single top-level folder, the bundle containing \<^verbatim>\<open>b.txt\<close>,
  and let the two temporary directories be fresh (no file lies below them) and not inside each
  other. Then the archive packaged by the create flow, written to the output path and sent in
  the publish call, contains exactly \<^verbatim>\<open>python/faassupervisor/a.py\<close> and \<^verbatim>\<open>b.txt\<close>, with the
  contents they had in the release.
\<close>

theorem create_layer_packages_two_entries:
  assumes "get_source_code_url env (GITHUB_USER env) (GITHUB_SUPERVISOR_PROJECT env)
             (supervisor_version self) = Inr url"
      and "get_file env url =
             Inr (Zip [(p @ ''/faassupervisor/a.py'', a),
                       (p @ ''/extra/bundle.zip'', Zip [(''b.txt'', b)])])"
      and "CHR ''/'' \<notin> set p"
      and "\<forall>q\<in>fst ` set (files w).
             \<not> below (tmp_zip_folder env) q \<and> \<not> below (layer_code_folder env) q"
      and "\<not> prefix (tmp_zip_folder env @ ''/'') (layer_code_folder env @ ''/'')"
      and "\<not> prefix (layer_code_folder env @ ''/'') (tmp_zip_folder env @ ''/'')"
  shows "map_of (files (snd (packaging env self w))) (layer_zip_path env self)
           = Some (Zip [(''python/faassupervisor/a.py'', a), (''b.txt'', b)])
     \<and> publishes (calls (snd (create_layer env self w)))
           = publishes (calls w) @
             [[(''LayerName'', PStr (layer_name self)),
               (''Description'', PStr (supervisor_version self)),
               (''Content'', PDict [(''ZipFile'',
                  PBytes (Zip [(''python/faassupervisor/a.py'', a), (''b.txt'', b)]))]),
               (''LicenseInfo'', license_info self)]]"
proof -
  note p = packaging_two_entries[OF assms]
  have a: "map_of (files (snd (packaging env self w))) (layer_zip_path env self)
           = Some (Zip [(''python/faassupervisor/a.py'', a), (''b.txt'', b)])"
    by (simp add: p update_conv')
  have b: "publishes (calls (snd (create_layer env self w)))
           = publishes (calls w) @
             [[(''LayerName'', PStr (layer_name self)),
               (''Description'', PStr (supervisor_version self)),
               (''Content'', PDict [(''ZipFile'',
                  PBytes (Zip [(''python/faassupervisor/a.py'', a), (''b.txt'', b)]))]),
               (''LicenseInfo'', license_info self)]]"
    by (simp add: create_layer_cases p publishes_append split: prod.splits sum.splits)
  show ?thesis using a b by blast
qed

text \<open>The sample release, packaged while an unrelated file is on disk.\<close>

theorem create_layer_packages_two_entries_witness:
  "publishes (calls (snd (create_layer (reference_env sample_release) supervisor_layers
      (initial_world [] [(''/home/user/notes.txt'', Bytes ''notes'')]))))
    = [[(''LayerName'', PStr ''supervisor''),
        (''Description'', PStr ''1.5.0''),
        (''Content'', PDict [(''ZipFile'',
           PBytes (Zip [(''python/faassupervisor/a.py'', Bytes ''import sys''),
                        (''b.txt'', Bytes ''binary'')]))]),
        (''LicenseInfo'', PStr ''Apache 2.0'')]]"
proof -
  let ?env = "reference_env sample_release"
  let ?w = "initial_world [] [(''/home/user/notes.txt'', Bytes ''notes'')] :: pydict list world"
  let ?url = "''https://github.com/grycap/faas-supervisor/archive/1.5.0.zip''"
  have url: "get_source_code_url ?env (GITHUB_USER ?env) (GITHUB_SUPERVISOR_PROJECT ?env)
               (supervisor_version supervisor_layers) = Inr ?url"
    by (simp add: reference_env_def supervisor_layers_def)
  have release: "get_file ?env ?url =
             Inr (Zip [(''faas-supervisor-1.5.0'' @ ''/faassupervisor/a.py'', Bytes ''import sys''),
                       (''faas-supervisor-1.5.0'' @ ''/extra/bundle.zip'',
                          Zip [(''b.txt'', Bytes ''binary'')])])"
    by (simp add: reference_env_def sample_release_def)
  have top: "CHR ''/'' \<notin> set ''faas-supervisor-1.5.0''"
    by simp
  have fresh: "\<forall>q\<in>fst ` set (files ?w).
             \<not> below (tmp_zip_folder ?env) q \<and> \<not> below (layer_code_folder ?env) q"
    by (simp add: reference_env_def initial_world_def below_def)
  have apart: "\<not> prefix (tmp_zip_folder ?env @ ''/'') (layer_code_folder ?env @ ''/'')"
    "\<not> prefix (layer_code_folder ?env @ ''/'') (tmp_zip_folder ?env @ ''/'')"
    by (simp_all add: reference_env_def)
  show ?thesis
    using create_layer_packages_two_entries[OF url release top fresh apart]
    by (simp add: initial_world_def supervisor_layers_def)
qed

subsection \<open>Removal of the output archive\<close>

lemma create_layer_removes_archive:
  "create_layer env self w = (Inr (), w1) \<Longrightarrow>
   map_of (files w1) (layer_zip_path env self) = None"
  by (auto simp: create_layer_cases delete_conv split: prod.splits sum.splits)

text \<open>
  C4, as amended. When the create or update flow completes, the output archive at
  \<^verbatim>\<open>{tmp-root}/{layer_name}.zip\<close> has been removed. On failure nothing is cleaned up: when
  the publish call raises after packaging succeeded, the flow raises the same error and the
  files are left as packaging left them, the output archive among them.
\<close>

theorem create_layer_cleanup:
  "(create_layer env self w = (Inr (), w1)
      \<or> create_supervisor_layer env self w = (Inr (), w1)
      \<or> update_supervisor_layer env self w = (Inr (), w1) \<longrightarrow>
      map_of (files w1) (layer_zip_path env self) = None)
   \<and> (packaging env self w = (Inr props, wp)
       \<and> fst (publish_layer_version env props (platform wp)) = Inl e \<longrightarrow>
      fst (create_layer env self w) = Inl e
      \<and> files (snd (create_layer env self w)) = files wp
      \<and> map_of (files wp) (layer_zip_path env self) \<noteq> None)"
proof (intro conjI impI)
  assume "create_layer env self w = (Inr (), w1)
      \<or> create_supervisor_layer env self w = (Inr (), w1)
      \<or> update_supervisor_layer env self w = (Inr (), w1)"
  then consider (plain) "create_layer env self w = (Inr (), w1)"
    | (logged) msg wc msg' where
        "create_layer env self (w\<lparr>logged := logged w @ [msg]\<rparr>) = (Inr (), wc)"
        "w1 = wc\<lparr>logged := logged wc @ [msg']\<rparr>"
    by (auto simp: create_supervisor_layer_def update_supervisor_layer_def bind_def
          logger_info_def split: prod.splits sum.splits)
  then show "map_of (files w1) (layer_zip_path env self) = None"
  proof cases
    case plain
    then show ?thesis by (rule create_layer_removes_archive)
  next
    case logged
    then show ?thesis using create_layer_removes_archive[OF logged(1)] by simp
  qed
next
  assume h: "packaging env self w = (Inr props, wp)
       \<and> fst (publish_layer_version env props (platform wp)) = Inl e"
  then show "fst (create_layer env self w) = Inl e"
    and "files (snd (create_layer env self w)) = files wp"
    by (auto simp: create_layer_cases split: prod.splits sum.splits)
  show "map_of (files wp) (layer_zip_path env self) \<noteq> None"
    using packaging_result[of env self w props wp] h by auto
qed

text \<open>The sample release with a publish call that succeeds, and with one that fails.\<close>

theorem create_layer_cleanup_witness:
  "map_of (files (snd (create_layer (reference_env sample_release) supervisor_layers
                         (initial_world [] [])))) ''/tmp/supervisor.zip'' = None
   \<and> fst (create_layer (failing_publish_env sample_release) supervisor_layers
            (initial_world [] [])) = Inl (Other ''ClientError'')
   \<and> map_of (files (snd (create_layer (failing_publish_env sample_release) supervisor_layers
                         (initial_world [] [])))) ''/tmp/supervisor.zip''
       = Some (Zip [(''python/faassupervisor/a.py'', Bytes ''import sys''),
                    (''b.txt'', Bytes ''binary'')])"
proof -
  let ?w = "initial_world [] [] :: pydict list world"
  let ?ok = "reference_env sample_release"
  let ?ko = "failing_publish_env sample_release"
  let ?self = supervisor_layers
  let ?props = "[(''LayerName'', PStr ''supervisor''), (''Description'', PStr ''1.5.0''),
                 (''Content'', PDict [(''ZipFile'', PBytes
                    (Zip [(''python/faassupervisor/a.py'', Bytes ''import sys''),
                          (''b.txt'', Bytes ''binary'')]))]),
                 (''LicenseInfo'', PStr ''Apache 2.0'')]"
  have z: "layer_zip_path ?ok ?self = ''/tmp/supervisor.zip''"
    "layer_zip_path ?ko ?self = ''/tmp/supervisor.zip''"
    by code_simp+
  have "fst (create_layer ?ok ?self ?w) = Inr ()"
    by code_simp
  then have "create_layer ?ok ?self ?w = (Inr (), snd (create_layer ?ok ?self ?w))"
    by (metis prod.collapse)
  then have a: "map_of (files (snd (create_layer ?ok ?self ?w))) ''/tmp/supervisor.zip'' = None"
    using create_layer_cleanup[of ?ok ?self ?w "snd (create_layer ?ok ?self ?w)"] z by simp
  have "fst (packaging ?ko ?self ?w) = Inr ?props"
    by code_simp
  then have p: "packaging ?ko ?self ?w = (Inr ?props, snd (packaging ?ko ?self ?w))"
    by (metis prod.collapse)
  have f: "fst (publish_layer_version ?ko ?props (platform (snd (packaging ?ko ?self ?w))))
             = Inl (Other ''ClientError'')"
    by (simp add: failing_publish_env_def)
  have m: "map_of (files (snd (packaging ?ko ?self ?w))) ''/tmp/supervisor.zip''
       = Some (Zip [(''python/faassupervisor/a.py'', Bytes ''import sys''),
                    (''b.txt'', Bytes ''binary'')])"
    by code_simp
  have b: "fst (create_layer ?ko ?self ?w) = Inl (Other ''ClientError'')
     \<and> files (snd (create_layer ?ko ?self ?w)) = files (snd (packaging ?ko ?self ?w))"
    using create_layer_cleanup[of ?ko ?self ?w _ ?props "snd (packaging ?ko ?self ?w)"
        "Other ''ClientError''"] p f by blast
  show ?thesis using a b m by simp
qed

text \<open>
  The claim as first stated fails when publishing fails: a check that enters the create flow
  and whose publish call raises leaves the output archive on disk.
\<close>

theorem check_leaves_archive_counterexample:
  "fst (check_faas_supervisor_layer (failing_publish_env sample_release) supervisor_layers
          (initial_world [] [])) = Inl (Other ''ClientError'')
   \<and> map_of (files (snd (check_faas_supervisor_layer (failing_publish_env sample_release)
                           supervisor_layers (initial_world [] []))))
        (layer_zip_path (failing_publish_env sample_release) supervisor_layers)
       = Some (Zip [(''python/faassupervisor/a.py'', Bytes ''import sys''),
                    (''b.txt'', Bytes ''binary'')])"
  by code_simp

section \<open>Reconciliation\<close>

subsection \<open>The decision procedure\<close>

text \<open>
  C1. For every registry state and desired version, \<^verbatim>\<open>check_faas_supervisor_layer\<close> follows
  the three-outcome procedure. If no record is found for the layer name, or the latest version
  of the record found has no \<^verbatim>\<open>Description\<close>, it runs the create flow; if the description
  compares strictly less than the desired version, it runs the update flow. Either flow issues
  at most one publish call, with the layer name and with \<^verbatim>\<open>Description\<close> equal to the desired
  version, and exactly one when the check returns normally. Otherwise, the description comparing
  greater or equal, it publishes nothing and leaves the registry and the files unchanged.
\<close>

theorem check_faas_supervisor_layer_decision:
  assumes "list_layers env (platform w) = Inr layers"
      and "find_loop layers (PStr (layer_name self)) = layer"
      and "layer \<noteq> [] \<longrightarrow> map_of layer ''LatestMatchingVersion'' = Some (PDict info)"
      and "check_faas_supervisor_layer env self w = (r, w1)"
  shows
    "(layer = [] \<or> map_of info ''Description'' = None \<longrightarrow>
        (\<exists>ls. logged w1 = logged w @ (''Creating '' @ quoted (layer_name self) @ '' layer.'') # ls)
        \<and> (\<exists>ps. publishes (calls w1) = publishes (calls w) @ ps \<and> length ps \<le> 1
              \<and> (\<forall>kw\<in>set ps. map_of kw ''LayerName'' = Some (PStr (layer_name self))
                    \<and> map_of kw ''Description'' = Some (PStr (supervisor_version self)))
              \<and> (r = Inr () \<longrightarrow> length ps = 1)))
   \<and> (\<forall>description c.
        layer \<noteq> [] \<and> map_of info ''Description'' = Some description
        \<and> compare_versions env description (PStr (supervisor_version self)) = Inr c \<and> c < 0 \<longrightarrow>
        (\<exists>ls. logged w1 = logged w @ (''Updating '' @ quoted (layer_name self) @ '' layer.'') # ls)
        \<and> (\<exists>ps. publishes (calls w1) = publishes (calls w) @ ps \<and> length ps \<le> 1
              \<and> (\<forall>kw\<in>set ps. map_of kw ''LayerName'' = Some (PStr (layer_name self))
                    \<and> map_of kw ''Description'' = Some (PStr (supervisor_version self)))
              \<and> (r = Inr () \<longrightarrow> length ps = 1)))
   \<and> (\<forall>description c.
        layer \<noteq> [] \<and> map_of info ''Description'' = Some description
        \<and> compare_versions env description (PStr (supervisor_version self)) = Inr c \<and> 0 \<le> c \<longrightarrow>
        r = Inr () \<and> publishes (calls w1) = publishes (calls w)
        \<and> platform w1 = platform w \<and> files w1 = files w
        \<and> logged w1 = logged w @ [''Using existent '' @ quoted (layer_name self) @ '' layer''])"
proof -
  let ?w0 = "w\<lparr>calls := calls w @ [ListLayers]\<rparr>"
  let ?info = "if layer = [] then [] else info"
  have li: "Layer_get_latest_layer_info env (PStr (layer_name self)) w = (Inr (PDict ?info), ?w0)"
    using assms(1-3) by (simp add: latest_info_listed dict_item_def)
  note ch = check_with_info[OF li]
  have p0: "publishes (calls ?w0) = publishes (calls w)"
    by (simp add: publishes_append)
  have a: "layer = [] \<or> map_of info ''Description'' = None \<longrightarrow>
        (\<exists>ls. logged w1 = logged w @ (''Creating '' @ quoted (layer_name self) @ '' layer.'') # ls)
        \<and> (\<exists>ps. publishes (calls w1) = publishes (calls w) @ ps \<and> length ps \<le> 1
              \<and> (\<forall>kw\<in>set ps. map_of kw ''LayerName'' = Some (PStr (layer_name self))
                    \<and> map_of kw ''Description'' = Some (PStr (supervisor_version self)))
              \<and> (r = Inr () \<longrightarrow> length ps = 1))"
  proof
    assume "layer = [] \<or> map_of info ''Description'' = None"
    then have "create_supervisor_layer env self ?w0 = (r, w1)"
      using ch assms(4) by auto
    from create_supervisor_layer_outcome[OF this] p0
    show "(\<exists>ls. logged w1 = logged w @ (''Creating '' @ quoted (layer_name self) @ '' layer.'') # ls)
        \<and> (\<exists>ps. publishes (calls w1) = publishes (calls w) @ ps \<and> length ps \<le> 1
              \<and> (\<forall>kw\<in>set ps. map_of kw ''LayerName'' = Some (PStr (layer_name self))
                    \<and> map_of kw ''Description'' = Some (PStr (supervisor_version self)))
              \<and> (r = Inr () \<longrightarrow> length ps = 1))"
      by simp
  qed
  have b: "\<forall>description c.
        layer \<noteq> [] \<and> map_of info ''Description'' = Some description
        \<and> compare_versions env description (PStr (supervisor_version self)) = Inr c \<and> c < 0 \<longrightarrow>
        (\<exists>ls. logged w1 = logged w @ (''Updating '' @ quoted (layer_name self) @ '' layer.'') # ls)
        \<and> (\<exists>ps. publishes (calls w1) = publishes (calls w) @ ps \<and> length ps \<le> 1
              \<and> (\<forall>kw\<in>set ps. map_of kw ''LayerName'' = Some (PStr (layer_name self))
                    \<and> map_of kw ''Description'' = Some (PStr (supervisor_version self)))
              \<and> (r = Inr () \<longrightarrow> length ps = 1))"
  proof (intro allI impI)
    fix description c
    assume "layer \<noteq> [] \<and> map_of info ''Description'' = Some description
        \<and> compare_versions env description (PStr (supervisor_version self)) = Inr c \<and> c < 0"
    then have "update_supervisor_layer env self ?w0 = (r, w1)"
      using ch assms(4) by auto
    from update_supervisor_layer_outcome[OF this] p0
    show "(\<exists>ls. logged w1 = logged w @ (''Updating '' @ quoted (layer_name self) @ '' layer.'') # ls)
        \<and> (\<exists>ps. publishes (calls w1) = publishes (calls w) @ ps \<and> length ps \<le> 1
              \<and> (\<forall>kw\<in>set ps. map_of kw ''LayerName'' = Some (PStr (layer_name self))
                    \<and> map_of kw ''Description'' = Some (PStr (supervisor_version self)))
              \<and> (r = Inr () \<longrightarrow> length ps = 1))"
      by simp
  qed
  have c: "\<forall>description c.
        layer \<noteq> [] \<and> map_of info ''Description'' = Some description
        \<and> compare_versions env description (PStr (supervisor_version self)) = Inr c \<and> 0 \<le> c \<longrightarrow>
        r = Inr () \<and> publishes (calls w1) = publishes (calls w)
        \<and> platform w1 = platform w \<and> files w1 = files w
        \<and> logged w1 = logged w @ [''Using existent '' @ quoted (layer_name self) @ '' layer'']"
  proof (intro allI impI)
    fix description c
    assume "layer \<noteq> [] \<and> map_of info ''Description'' = Some description
        \<and> compare_versions env description (PStr (supervisor_version self)) = Inr c \<and> 0 \<le> c"
    then have "(r, w1) = (Inr (), ?w0\<lparr>logged := logged ?w0 @
                       [''Using existent '' @ quoted (layer_name self) @ '' layer'']\<rparr>)"
      using ch assms(4) by auto
    then show "r = Inr () \<and> publishes (calls w1) = publishes (calls w)
        \<and> platform w1 = platform w \<and> files w1 = files w
        \<and> logged w1 = logged w @ [''Using existent '' @ quoted (layer_name self) @ '' layer'']"
      using p0 by simp
  qed
  show ?thesis using a b c by blast
qed

text \<open>Spec scenarios 1 to 3: an empty registry and a registry at 1.4.0 lead to one publish
  call each, a registry at 1.5.0 to none and is left as it is.\<close>

theorem check_faas_supervisor_layer_decision_witness:
  "length (publishes (calls (snd (check_faas_supervisor_layer (reference_env sample_release)
       supervisor_layers (initial_world [] []))))) = 1
   \<and> length (publishes (calls (snd (check_faas_supervisor_layer (reference_env sample_release)
       supervisor_layers (initial_world stale_registry []))))) = 1
   \<and> publishes (calls (snd (check_faas_supervisor_layer (reference_env sample_release)
       supervisor_layers (initial_world current_registry [])))) = []
   \<and> platform (snd (check_faas_supervisor_layer (reference_env sample_release)
       supervisor_layers (initial_world current_registry []))) = current_registry"
proof -
  let ?env = "reference_env sample_release"
  let ?self = supervisor_layers
  let ?check = "check_faas_supervisor_layer ?env ?self"
  have l: "list_layers ?env (platform (initial_world p [])) = Inr p" for p
    by (simp add: reference_env_def initial_world_def)
  have c: "?check w = (fst (?check w), snd (?check w))" for w
    by simp
  have r1: "fst (?check (initial_world [] [])) = Inr ()"
    by code_simp
  have r2: "fst (?check (initial_world stale_registry [])) = Inr ()"
    by code_simp
  have f2: "find_loop stale_registry (PStr (layer_name ?self)) = hd stale_registry"
    "hd stale_registry \<noteq> []"
    "map_of (hd stale_registry) ''LatestMatchingVersion''
       = Some (PDict [(''Version'', PInt 1), (''Description'', PStr ''1.4.0''),
                 (''LayerVersionArn'', PStr ''arn:aws:lambda:layer:supervisor'')])"
    by code_simp+
  have f3: "find_loop current_registry (PStr (layer_name ?self)) = hd current_registry"
    "hd current_registry \<noteq> []"
    "map_of (hd current_registry) ''LatestMatchingVersion''
       = Some (PDict [(''Version'', PInt 2), (''Description'', PStr ''1.5.0''),
                 (''LayerVersionArn'', PStr ''arn:aws:lambda:layer:supervisor'')])"
    by code_simp+
  have c2: "compare_versions ?env (PStr ''1.4.0'') (PStr (supervisor_version ?self)) = Inr (- 1)"
    by code_simp
  have c3: "compare_versions ?env (PStr ''1.5.0'') (PStr (supervisor_version ?self)) = Inr 0"
    by code_simp
  have a: "length (publishes (calls (snd (?check (initial_world [] []))))) = 1"
    using check_faas_supervisor_layer_decision[OF l[of "[]"] _ _ c[of "initial_world [] []"],
        of "[]" "[]"] r1
    by (auto simp: initial_world_def)
  have b: "length (publishes (calls (snd (?check (initial_world stale_registry []))))) = 1"
    using check_faas_supervisor_layer_decision[OF l[of stale_registry] f2(1) _
        c[of "initial_world stale_registry []"],
        of "[(''Version'', PInt 1), (''Description'', PStr ''1.4.0''),
                 (''LayerVersionArn'', PStr ''arn:aws:lambda:layer:supervisor'')]"] f2 c2 r2
    by (auto simp: initial_world_def)
  have d: "publishes (calls (snd (?check (initial_world current_registry [])))) = []
     \<and> platform (snd (?check (initial_world current_registry []))) = current_registry"
    using check_faas_supervisor_layer_decision[OF l[of current_registry] f3(1) _
        c[of "initial_world current_registry []"],
        of "[(''Version'', PInt 2), (''Description'', PStr ''1.5.0''),
                 (''LayerVersionArn'', PStr ''arn:aws:lambda:layer:supervisor'')]"] f3 c3
    by (auto simp: initial_world_def)
  show ?thesis using a b d by simp
qed

subsection \<open>Idempotence\<close>

lemma reference_env_lists_published:
  assumes "publish_layer_version (reference_env release) kwargs p = (Inr res, p1)"
      and "map_of kwargs ''LayerName'' = Some name"
      and "map_of kwargs ''Description'' = Some description"
  shows "\<exists>before layer rest info.
               list_layers (reference_env release) p1 = Inr (before @ layer # rest)
             \<and> (\<forall>l\<in>set before. dict_get l ''LayerName'' (PStr '''') \<noteq> name)
             \<and> map_of layer ''LayerName'' = Some name
             \<and> map_of layer ''LatestMatchingVersion'' = Some (PDict info)
             \<and> map_of info ''Description'' = Some description"
proof -
  from assms have "\<exists>info. p1 = [(''LayerName'', name), (''LatestMatchingVersion'', PDict info)] # p
                    \<and> map_of info ''Description'' = Some description"
    by (auto simp: reference_env_def platform_publish_def dict_get_def Let_def)
  then obtain info where
    p1: "p1 = [(''LayerName'', name), (''LatestMatchingVersion'', PDict info)] # p"
    and d: "map_of info ''Description'' = Some description"
    by blast
  have "list_layers (reference_env release) p1
          = Inr ([] @ [(''LayerName'', name), (''LatestMatchingVersion'', PDict info)] # p)"
    by (simp add: reference_env_def p1)
  then show ?thesis
    using d
    by (intro exI[of _ "[]"] exI[of _ "[(''LayerName'', name), (''LatestMatchingVersion'', PDict info)]"]
          exI[of _ p] exI[of _ info]) simp
qed

text \<open>
  C6. \<^verbatim>\<open>check\<close> is idempotent for unchanged inputs. Let equal versions compare equal, and
  let the registry list what has been published: after a successful publish call, the first
  listed record of the published name carries, as its latest matching version, the published
  description. Then, for every initial registry state, a second check with the same desired
  version that follows a first check that returned normally, nothing else touching the
  registry, takes the no-op branch: it only lists the layers and logs that the existing layer
  is used, it publishes nothing and leaves the registry as it is, and the two checks together
  publish at most once.
\<close>

theorem check_faas_supervisor_layer_idempotent:
  assumes first: "check_faas_supervisor_layer env self w = (Inr (), w1)"
      and equal: "compare_versions env (PStr (supervisor_version self))
                    (PStr (supervisor_version self)) = Inr 0"
      and listed: "\<And>kwargs p res p1 name description.
            publish_layer_version env kwargs p = (Inr res, p1) \<Longrightarrow>
            map_of kwargs ''LayerName'' = Some name \<Longrightarrow>
            map_of kwargs ''Description'' = Some description \<Longrightarrow>
            \<exists>before layer rest info.
               list_layers env p1 = Inr (before @ layer # rest)
             \<and> (\<forall>l\<in>set before. dict_get l ''LayerName'' (PStr '''') \<noteq> name)
             \<and> map_of layer ''LayerName'' = Some name
             \<and> map_of layer ''LatestMatchingVersion'' = Some (PDict info)
             \<and> map_of info ''Description'' = Some description"
  shows "check_faas_supervisor_layer env self w1 =
           (Inr (), w1\<lparr>calls := calls w1 @ [ListLayers],
                       logged := logged w1 @
                         [''Using existent '' @ quoted (layer_name self) @ '' layer'']\<rparr>)
         \<and> publishes (calls (snd (check_faas_supervisor_layer env self w1))) = publishes (calls w1)
         \<and> platform (snd (check_faas_supervisor_layer env self w1)) = platform w1
         \<and> length (publishes (calls (snd (check_faas_supervisor_layer env self w1))))
             \<le> length (publishes (calls w)) + 1"
proof -
  let ?n = "PStr (layer_name self)"
  let ?v = "PStr (supervisor_version self)"
  let ?w0 = "w\<lparr>calls := calls w @ [ListLayers]\<rparr>"
  let ?using = "''Using existent '' @ quoted (layer_name self) @ '' layer''"
  let ?w2 = "w1\<lparr>calls := calls w1 @ [ListLayers], logged := logged w1 @ [?using]\<rparr>"
  have p2: "publishes (calls ?w2) = publishes (calls w1)"
    by (simp add: publishes_append)
  have p0: "publishes (calls ?w0) = publishes (calls w)"
    by (simp add: publishes_append)
  from check_branches[OF first]
  consider (current) "w1 = w\<lparr>calls := calls w @ [ListLayers], logged := logged w @ [?using]\<rparr>"
      "\<forall>w'. platform w' = platform w \<longrightarrow>
          check_faas_supervisor_layer env self w' =
            (Inr (), w'\<lparr>calls := calls w' @ [ListLayers], logged := logged w' @ [?using]\<rparr>)"
    | (flow) "create_supervisor_layer env self ?w0 = (Inr (), w1)
              \<or> update_supervisor_layer env self ?w0 = (Inr (), w1)"
    by blast
  then have "check_faas_supervisor_layer env self w1 = (Inr (), ?w2)
        \<and> length (publishes (calls w1)) \<le> length (publishes (calls w)) + 1"
  proof cases
    case current
    have "platform w1 = platform w" by (subst current(1)) simp
    then have "check_faas_supervisor_layer env self w1 = (Inr (), ?w2)"
      using current(2) by blast
    moreover have "publishes (calls w1) = publishes (calls w)"
      by (subst current(1)) (simp add: publishes_append)
    ultimately show ?thesis by simp
  next
    case flow
    from flow_success[OF flow] obtain props res p where
      props: "map_of props ''LayerName'' = Some ?n" "map_of props ''Description'' = Some ?v"
      and pub: "publish_layer_version env props p = (Inr res, platform w1)"
      by blast
    from listed[OF pub props] obtain before layer rest info where
      l: "list_layers env (platform w1) = Inr (before @ layer # rest)"
      and b: "\<forall>l\<in>set before. dict_get l ''LayerName'' (PStr '''') \<noteq> ?n"
      and n: "map_of layer ''LayerName'' = Some ?n"
      and v: "map_of layer ''LatestMatchingVersion'' = Some (PDict info)"
      and d: "map_of info ''Description'' = Some ?v"
      by blast
    have f: "find_loop (before @ layer # rest) ?n = layer"
      using find_loop_first[OF b n] .
    have ne: "layer \<noteq> []" using n by auto
    have "Layer_get_latest_layer_info env ?n w1
            = (Inr (PDict info), w1\<lparr>calls := calls w1 @ [ListLayers]\<rparr>)"
      using latest_info_listed[OF l, of ?n] f ne v by (simp add: dict_item_def)
    from check_with_info[OF this] d equal
    have c2: "check_faas_supervisor_layer env self w1 = (Inr (), ?w2)" by simp
    have "\<exists>ps. publishes (calls w1) = publishes (calls w) @ ps \<and> length ps \<le> 1"
      using flow create_supervisor_layer_outcome[of env self ?w0 "Inr ()" w1]
        update_supervisor_layer_outcome[of env self ?w0 "Inr ()" w1] p0
      by auto
    then have "length (publishes (calls w1)) \<le> length (publishes (calls w)) + 1"
      by auto
    then show ?thesis using c2 by simp
  qed
  then show ?thesis using p2 by simp
qed

text \<open>Starting from an empty registry, the first check publishes and the second one returns
  without publishing: one publish call in all.\<close>

theorem check_faas_supervisor_layer_idempotent_witness:
  "fst (check_faas_supervisor_layer (reference_env sample_release) supervisor_layers
         (snd (check_faas_supervisor_layer (reference_env sample_release) supervisor_layers
                 (initial_world [] [])))) = Inr ()
   \<and> length (publishes (calls (snd
        (check_faas_supervisor_layer (reference_env sample_release) supervisor_layers
         (snd (check_faas_supervisor_layer (reference_env sample_release) supervisor_layers
                 (initial_world [] []))))))) \<le> 1"
proof -
  let ?env = "reference_env sample_release"
  let ?self = supervisor_layers
  let ?check = "check_faas_supervisor_layer ?env ?self"
  let ?w = "initial_world [] [] :: pydict list world"
  let ?w1 = "snd (?check ?w)"
  have r1: "fst (?check ?w) = Inr ()"
    by code_simp
  then have first: "?check ?w = (Inr (), ?w1)"
    by (metis prod.collapse)
  have equal: "compare_versions ?env (PStr (supervisor_version ?self))
                 (PStr (supervisor_version ?self)) = Inr 0"
    by code_simp
  let ?w2 = "?w1\<lparr>calls := calls ?w1 @ [ListLayers],
                 logged := logged ?w1 @
                   [''Using existent '' @ quoted (layer_name ?self) @ '' layer'']\<rparr>"
  have second: "?check ?w1 = (Inr (), ?w2)
         \<and> publishes (calls (snd (?check ?w1))) = publishes (calls ?w1)
         \<and> platform (snd (?check ?w1)) = platform ?w1
         \<and> length (publishes (calls (snd (?check ?w1))))
             \<le> length (publishes (calls ?w)) + 1"
    using first equal
    by (rule check_faas_supervisor_layer_idempotent) (rule reference_env_lists_published; assumption)
  have p: "length (publishes (calls ?w)) = 0"
    by (simp add: initial_world_def)
  from second have a: "fst (?check ?w1) = Inr ()"
    by (metis fst_conv)
  from second have "length (publishes (calls (snd (?check ?w1))))
                      \<le> length (publishes (calls ?w)) + 1"
    by blast
  with p have b: "length (publishes (calls (snd (?check ?w1)))) \<le> 1"
    by arith
  show ?thesis using a b by blast
qed

end
